theory Spec2Isabelle
  imports Main "HOL-Library.Word" "HOL-Library.Char_ord" "HOL-Library.List_Lexorder"
begin

unbundle bit_operations_syntax

section \<open>String helpers of the Go standard library\<close>

text \<open>
  \<open>strings.HasPrefix(s, prefix)\<close>, \<open>strings.HasSuffix(s, suffix)\<close> and
  \<open>strings.TrimSuffix(s, suffix)\<close> on byte strings.
\<close>

definition HasPrefix :: "string \<Rightarrow> string \<Rightarrow> bool" where
  "HasPrefix s p = (take (length p) s = p)"

definition HasSuffix :: "string \<Rightarrow> string \<Rightarrow> bool" where
  "HasSuffix s x = (length x \<le> length s \<and> drop (length s - length x) s = x)"

definition TrimSuffix :: "string \<Rightarrow> string \<Rightarrow> string" where
  "TrimSuffix s x = (if HasSuffix s x then take (length s - length x) s else s)"

text \<open>
  \<open>strings.Split(s, sep)\<close> for a one-byte separator: the result is never empty, the
  empty string splits into one empty segment.
\<close>

fun Split :: "string \<Rightarrow> char \<Rightarrow> string list" where
  "Split [] sep = [[]]"
| "Split (c # cs) sep =
     (if c = sep then [] # Split cs sep
      else (case Split cs sep of
              [] \<Rightarrow> [[c]]
            | w # ws \<Rightarrow> (c # w) # ws))"

text \<open>
  \<open>strings.SplitN(s, sep, n)\<close> for a one-byte separator and \<open>n \<ge> 0\<close>: at most
  \<open>n\<close> pieces, the last one holding the unsplit rest; \<open>n = 0\<close> gives no piece.
\<close>

fun cutAt :: "char \<Rightarrow> string \<Rightarrow> (string \<times> string) option" where
  "cutAt sep [] = None"
| "cutAt sep (c # cs) =
     (if c = sep then Some ([], cs)
      else (case cutAt sep cs of
              None \<Rightarrow> None
            | Some (a, b) \<Rightarrow> Some (c # a, b)))"

fun SplitN :: "string \<Rightarrow> char \<Rightarrow> nat \<Rightarrow> string list" where
  "SplitN s sep 0 = []"
| "SplitN s sep (Suc 0) = [s]"
| "SplitN s sep (Suc (Suc n)) =
     (case cutAt sep s of
        None \<Rightarrow> [s]
      | Some (a, b) \<Rightarrow> a # SplitN b sep (Suc n))"

section \<open>Handlers and middleware (context/context.go)\<close>

text \<open>
  A Go handler \<open>func(*Ctx) error\<close> mutates the context it is given and returns
  \<open>nil\<close> or an error, or panics. The model passes the context through and returns
  the outcome with it.
\<close>

datatype outcome = NilErr | Err string | Panic string

type_synonym 'c Handler = "'c \<Rightarrow> outcome \<times> 'c"

type_synonym 'c Middleware = "'c Handler \<Rightarrow> 'c Handler"

section \<open>Route table (router.go)\<close>

record 'c Route =
  Method :: string
  Path :: string
  Handlers :: "'c Handler list"
  middleware :: "'c Middleware list"

text \<open>
  A \<open>Router\<close> is a view on the shared route table: the table itself (\<open>*r.routes\<close>,
  shared by all groups) is passed to and returned by the operations that touch it.
\<close>

record 'c Router =
  prefix :: string
  rmiddleware :: "'c Middleware list"

definition newRouter :: "string \<Rightarrow> 'c Router" where
  "newRouter p = \<lparr>prefix = p, rmiddleware = []\<rparr>"

definition Group :: "'c Router \<Rightarrow> string \<Rightarrow> 'c Router" where
  "Group r p = \<lparr>prefix = prefix r @ p, rmiddleware = rmiddleware r\<rparr>"

definition Use :: "'c Router \<Rightarrow> 'c Middleware list \<Rightarrow> 'c Router" where
  "Use r mw = r\<lparr>rmiddleware := rmiddleware r @ mw\<rparr>"

definition add ::
  "'c Router \<Rightarrow> 'c Route list \<Rightarrow> string \<Rightarrow> string \<Rightarrow> 'c Handler list \<Rightarrow> 'c Route list" where
  "add r routes method path handlers =
     (let fullPath = prefix r @ path;
          route = \<lparr>Method = method, Path = fullPath, Handlers = handlers,
                   middleware = rmiddleware r\<rparr>
      in routes @ [route])"

fun matchLoop ::
  "(string \<times> string) list \<Rightarrow> (string \<rightharpoonup> string) \<Rightarrow> (string \<rightharpoonup> string) option" where
  "matchLoop [] params = Some params"
| "matchLoop ((part, seg) # rest) params =
     (if HasPrefix part '':'' then matchLoop rest (params(drop 1 part \<mapsto> seg))
      else if part \<noteq> seg then None
      else matchLoop rest params)"

definition matchPath :: "string \<Rightarrow> string \<Rightarrow> (string \<rightharpoonup> string) option" where
  "matchPath pattern path =
     (let patternParts = Split pattern CHR ''/'';
          pathParts = Split path CHR ''/''
      in if length patternParts \<noteq> length pathParts then None
         else matchLoop (zip patternParts pathParts) Map.empty)"

fun find ::
  "'c Route list \<Rightarrow> string \<Rightarrow> string \<Rightarrow> ('c Route \<times> (string \<rightharpoonup> string)) option" where
  "find [] method path = None"
| "find (route # routes) method path =
     (if Method route \<noteq> method then find routes method path
      else (case matchPath (Path route) path of
              Some params \<Rightarrow> Some (route, params)
            | None \<Rightarrow> find routes method path))"

section \<open>Middleware chain builder (App.buildChain)\<close>

text \<open>
  The first loop of \<open>buildChain\<close> runs \<open>i\<close> from \<open>len(handlers) - 2\<close> down to \<open>0\<close>;
  \<open>chainHandlers (Suc i)\<close> is the iteration at index \<open>i\<close>. The closure built there calls
  \<open>h\<close>, returns its error when it is not \<open>nil\<close> (a panic unwinds the same way) and calls
  \<open>next\<close> otherwise.
\<close>

fun chainHandlers :: "nat \<Rightarrow> 'c Handler list \<Rightarrow> 'c Handler \<Rightarrow> 'c Handler" where
  "chainHandlers 0 handlers final = final"
| "chainHandlers (Suc i) handlers final =
     chainHandlers i handlers
       (\<lambda>c. case (handlers ! i) c of
              (NilErr, c') \<Rightarrow> final c'
            | (err, c') \<Rightarrow> (err, c'))"

text \<open>
  The second loop runs \<open>i\<close> from \<open>len(allMiddleware) - 1\<close> down to \<open>0\<close>;
  \<open>wrapMiddleware (Suc i)\<close> is the iteration at index \<open>i\<close>.
\<close>

fun wrapMiddleware :: "nat \<Rightarrow> 'c Middleware list \<Rightarrow> 'c Handler \<Rightarrow> 'c Handler" where
  "wrapMiddleware 0 allMiddleware final = final"
| "wrapMiddleware (Suc i) allMiddleware final =
     wrapMiddleware i allMiddleware ((allMiddleware ! i) final)"

definition buildChain ::
  "'c Middleware list \<Rightarrow> 'c Handler list \<Rightarrow> 'c Middleware list \<Rightarrow> 'c Handler" where
  "buildChain appMiddleware handlers routeMiddleware =
     (if length handlers = 0 then (\<lambda>c. (NilErr, c))
      else
        let final = handlers ! (length handlers - 1);
            final' = chainHandlers (length handlers - 1) handlers final;
            allMiddleware = appMiddleware @ routeMiddleware
        in wrapMiddleware (length allMiddleware) allMiddleware final')"

text \<open>
  The terminal handler in the words of the specification: each handler of the sequence
  runs and, only if it reports no failure, passes control to the next; the last
  handler's result is the result.
\<close>

fun runHandlers :: "'c Handler list \<Rightarrow> 'c Handler" where
  "runHandlers [] c = (NilErr, c)"
| "runHandlers [h] c = h c"
| "runHandlers (h # h' # hs) c =
     (case h c of
        (NilErr, c') \<Rightarrow> runHandlers (h' # hs) c'
      | (err, c') \<Rightarrow> (err, c'))"

text \<open>
  The observing middleware of the specification's ordering scenario: it appends its
  identifier to a shared log, calls its inner handler and, when that returns (with or
  without an error), appends its identifier again. When the inner handler panics the
  panic unwinds through the middleware and nothing is appended. The log is the whole
  state the chain runs on.
\<close>

datatype event = Before string | After string

definition observer :: "string \<Rightarrow> (event list) Middleware" where
  "observer name next log =
     (case next (log @ [Before name]) of
        (Panic m, log') \<Rightarrow> (Panic m, log')
      | (r, log') \<Rightarrow> (r, log' @ [After name]))"

section \<open>Request context (context/context.go)\<close>

record AuthInfo =
  Type :: string
  Value :: string
  Username :: string
  Password :: string
  Valid :: bool

text \<open>
  The transport's response sink. \<open>statusCode\<close> is the stored status, \<open>0\<close> as long as
  none was set. The body is kept as the value handed to the codec: the string map
  passed to \<open>JSON\<close> (every body written by the modelled code is a \<open>map[string]string\<close>,
  which \<open>json.Marshal\<close> always encodes) or the text passed to \<open>String\<close>.
\<close>

datatype Body = NoBody | JSONBody "(string \<times> string) list" | StringBody string

record Response =
  statusCode :: int
  contentType :: string
  respHeader :: "string \<rightharpoonup> string"
  body :: Body

text \<open>
  The transport's request context: method, path, the header lookup
  \<open>Request.Header.Peek\<close> (the empty string for an absent header) and the response.
\<close>

record RequestCtx =
  reqMethod :: string
  reqPath :: string
  reqHeader :: "string \<Rightarrow> string"
  Response :: Response

datatype Logger = ConsoleLogger | MetricsLogger Logger

text \<open>
  \<open>Ctx\<close> embeds a pointer to the transport's request context, \<open>nil\<close> (\<open>None\<close>) outside
  a request. Every method that reaches through it panics on \<open>nil\<close>; the accessors
  below return \<open>None\<close> for that panic.
\<close>

record 'v Ctx =
  RequestCtx :: "RequestCtx option"
  Params :: "string \<rightharpoonup> string"
  Locals :: "string \<rightharpoonup> 'v"
  Logger :: "Logger option"
  Auth :: "AuthInfo option"

definition nilDeref :: outcome where
  "nilDeref = Panic ''invalid memory address or nil pointer dereference''"

definition Get :: "'v Ctx \<Rightarrow> string \<Rightarrow> string option" where
  "Get c key = map_option (\<lambda>f. reqHeader f key) (RequestCtx c)"

definition withResponse :: "'v Ctx \<Rightarrow> (Response \<Rightarrow> Response) \<Rightarrow> 'v Ctx option" where
  "withResponse c upd =
     map_option (\<lambda>f. c\<lparr>RequestCtx := Some (f\<lparr>Response := upd (Response f)\<rparr>)\<rparr>) (RequestCtx c)"

definition Set :: "'v Ctx \<Rightarrow> string \<Rightarrow> string \<Rightarrow> 'v Ctx option" where
  "Set c key val = withResponse c (\<lambda>r. r\<lparr>respHeader := (respHeader r)(key \<mapsto> val)\<rparr>)"

definition Status :: "'v Ctx \<Rightarrow> int \<Rightarrow> 'v Ctx option" where
  "Status c code = withResponse c (\<lambda>r. r\<lparr>statusCode := code\<rparr>)"

definition JSON :: "'v Ctx \<Rightarrow> int \<Rightarrow> (string \<times> string) list \<Rightarrow> outcome \<times> 'v Ctx" where
  "JSON c status v =
     (case withResponse c
             (\<lambda>r. r\<lparr>contentType := ''application/json'', statusCode := status,
                     body := JSONBody v\<rparr>) of
        None \<Rightarrow> (nilDeref, c)
      | Some c' \<Rightarrow> (NilErr, c'))"

definition StatusUnauthorized :: int where "StatusUnauthorized = 401"
definition StatusNotFound :: int where "StatusNotFound = 404"
definition StatusInternalServerError :: int where "StatusInternalServerError = 500"
definition StatusOK :: int where "StatusOK = 200"

definition Unauthorized :: "'v Ctx \<Rightarrow> string \<Rightarrow> outcome \<times> 'v Ctx" where
  "Unauthorized c msg = JSON c StatusUnauthorized [(''error'', msg)]"

definition SetAuth :: "'v Ctx \<Rightarrow> AuthInfo \<Rightarrow> 'v Ctx" where
  "SetAuth c auth = c\<lparr>Auth := Some auth\<rparr>"

definition GetAuth :: "'v Ctx \<Rightarrow> AuthInfo option" where
  "GetAuth c = Auth c"

section \<open>Auth strategies (middlewares/auth.go)\<close>

text \<open>
  Validators are the caller's predicates: functions of the credentials that return a
  truth value and do nothing else. The standalone middlewares are given a validator
  (calling a \<open>nil\<close> one would panic before anything is attached or called); in
  \<open>AuthConfig\<close> a validator may be \<open>nil\<close> (\<open>None\<close>).
  \<open>base64.StdEncoding.DecodeString\<close> is taken as the parameter \<open>DecodeString\<close>
  (\<open>None\<close> for a decoding error).
\<close>

record AuthConfig =
  BasicValidator :: "(string \<Rightarrow> string \<Rightarrow> bool) option"
  BearerValidator :: "(string \<Rightarrow> bool) option"
  APIKeyValidator :: "(string \<Rightarrow> bool) option"
  APIKeyName :: string

definition NewAuthConfig :: AuthConfig where
  "NewAuthConfig = \<lparr>BasicValidator = None, BearerValidator = None, APIKeyValidator = None,
                     APIKeyName = ''X-API-Key''\<rparr>"

definition basicChallenge :: string where
  "basicChallenge = ''Basic realm='' @ [CHR 0x22] @ ''Restricted'' @ [CHR 0x22]"

definition BasicAuth ::
  "(string \<Rightarrow> string option) \<Rightarrow> (string \<Rightarrow> string \<Rightarrow> bool) \<Rightarrow> ('v Ctx) Middleware" where
  "BasicAuth DecodeString validator next c =
     (case Get c ''Authorization'' of
        None \<Rightarrow> (nilDeref, c)
      | Some auth \<Rightarrow>
          if auth = [] then
            (case Set c ''WWW-Authenticate'' basicChallenge of
               None \<Rightarrow> (nilDeref, c)
             | Some c' \<Rightarrow> Unauthorized c' ''missing authorization header'')
          else if \<not> HasPrefix auth ''Basic '' then
            Unauthorized c ''invalid authorization type''
          else
            (case DecodeString (drop 6 auth) of
               None \<Rightarrow> Unauthorized c ''invalid base64 encoding''
             | Some decoded \<Rightarrow>
                 let parts = SplitN decoded CHR '':'' 2 in
                 if length parts \<noteq> 2 then Unauthorized c ''invalid credentials format''
                 else
                   let username = parts ! 0; password = parts ! 1 in
                   if \<not> validator username password then
                     Unauthorized c ''invalid credentials''
                   else
                     next (SetAuth c \<lparr>Type = ''basic'', Value = [], Username = username,
                                       Password = password, Valid = True\<rparr>)))"

definition BearerAuth :: "(string \<Rightarrow> bool) \<Rightarrow> ('v Ctx) Middleware" where
  "BearerAuth validator next c =
     (case Get c ''Authorization'' of
        None \<Rightarrow> (nilDeref, c)
      | Some auth \<Rightarrow>
          if auth = [] then Unauthorized c ''missing authorization header''
          else if \<not> HasPrefix auth ''Bearer '' then
            Unauthorized c ''invalid authorization type''
          else
            let token = drop 7 auth in
            if \<not> validator token then Unauthorized c ''invalid token''
            else
              next (SetAuth c \<lparr>Type = ''bearer'', Value = token, Username = [],
                                Password = [], Valid = True\<rparr>))"

definition APIKeyAuth :: "(string \<Rightarrow> bool) \<Rightarrow> string \<Rightarrow> ('v Ctx) Middleware" where
  "APIKeyAuth validator headerName next c =
     (let headerName' = (if headerName = [] then ''X-API-Key'' else headerName) in
      case Get c headerName' of
        None \<Rightarrow> (nilDeref, c)
      | Some key \<Rightarrow>
          if key = [] then Unauthorized c ''missing API key''
          else if \<not> validator key then Unauthorized c ''invalid API key''
          else
            next (SetAuth c \<lparr>Type = ''apikey'', Value = key, Username = [],
                              Password = [], Valid = True\<rparr>))"

text \<open>The combined middleware \<open>Auth(config)\<close>.\<close>

definition Auth_combined ::
  "(string \<Rightarrow> string option) \<Rightarrow> AuthConfig \<Rightarrow> ('v Ctx) Middleware" where
  "Auth_combined DecodeString config next c =
     (case Get c ''Authorization'' of
        None \<Rightarrow> (nilDeref, c)
      | Some auth \<Rightarrow>
     (case Get c (APIKeyName config) of
        None \<Rightarrow> (nilDeref, c)
      | Some apiKey \<Rightarrow>
     (case (if apiKey \<noteq> [] then APIKeyValidator config else None) of
        Some validateKey \<Rightarrow>
          if validateKey apiKey then
            next (SetAuth c \<lparr>Type = ''apikey'', Value = apiKey, Username = [],
                              Password = [], Valid = True\<rparr>)
          else Unauthorized c ''invalid API key''
      | None \<Rightarrow>
          if auth = [] then
            (case Set c ''WWW-Authenticate'' basicChallenge of
               None \<Rightarrow> (nilDeref, c)
             | Some c' \<Rightarrow> Unauthorized c' ''missing authorization'')
          else
     (case (if HasPrefix auth ''Bearer '' then BearerValidator config else None) of
        Some validateToken \<Rightarrow>
          let token = drop 7 auth in
          if validateToken token then
            next (SetAuth c \<lparr>Type = ''bearer'', Value = token, Username = [],
                              Password = [], Valid = True\<rparr>)
          else Unauthorized c ''invalid token''
      | None \<Rightarrow>
     (case (if HasPrefix auth ''Basic '' then BasicValidator config else None) of
        Some validateBasic \<Rightarrow>
          (case DecodeString (drop 6 auth) of
             None \<Rightarrow> Unauthorized c ''invalid base64 encoding''
           | Some decoded \<Rightarrow>
               let parts = SplitN decoded CHR '':'' 2 in
               if length parts \<noteq> 2 then Unauthorized c ''invalid credentials format''
               else
                 let username = parts ! 0; password = parts ! 1 in
                 if validateBasic username password then
                   next (SetAuth c \<lparr>Type = ''basic'', Value = [], Username = username,
                                     Password = password, Valid = True\<rparr>)
                 else Unauthorized c ''invalid credentials'')
      | None \<Rightarrow> Unauthorized c ''invalid authorization'')))))"

section \<open>Metrics collector (metrics/metrics.go)\<close>

text \<open>
  Each \<open>sync.Map\<close> is an association list with one entry per key; the counters are
  \<open>int64\<close>. The latency map holds two kinds of values under string keys: a mutex
  under \<open>method_path\<close> and the bucket under \<open>method_path_bucket\<close>. The bucket's
  \<open>float64\<close> sum only ever receives whole numbers of milliseconds and is kept as an
  integer (sums of whole numbers are exact in \<open>float64\<close> below \<open>2^53\<close>); its quotient
  by the count and the \<open>%.2f\<close> formatting are parameters of the renderers.
\<close>

datatype LatencyEntry = MutexEntry | BucketEntry int "64 word"

record Metrics =
  requestTotal :: "(string \<times> 64 word) list"
  requestLatency :: "(string \<times> LatencyEntry) list"
  errorTotal :: "(string \<times> 64 word) list"
  logCount :: "(string \<times> 64 word) list"
  activeConns :: "64 word"

definition New_Metrics :: Metrics where
  "New_Metrics = \<lparr>requestTotal = [], requestLatency = [], errorTotal = [], logCount = [],
                   activeConns = 0\<rparr>"

definition LoadOrStore :: "(string \<times> 'a) list \<Rightarrow> string \<Rightarrow> 'a \<Rightarrow> 'a \<times> (string \<times> 'a) list" where
  "LoadOrStore m key v =
     (case map_of m key of
        Some x \<Rightarrow> (x, m)
      | None \<Rightarrow> (v, m @ [(key, v)]))"

text \<open>Writing through the pointer stored under \<open>key\<close>.\<close>

fun storeAt :: "(string \<times> 'a) list \<Rightarrow> string \<Rightarrow> 'a \<Rightarrow> (string \<times> 'a) list" where
  "storeAt [] key v = []"
| "storeAt ((k, x) # m) key v =
     (if k = key then (k, v) # m else (k, x) # storeAt m key v)"

text \<open>\<open>LoadOrStore(key, new(int64))\<close> followed by \<open>atomic.AddInt64(val, 1)\<close>.\<close>

definition addOne :: "(string \<times> 64 word) list \<Rightarrow> string \<Rightarrow> (string \<times> 64 word) list" where
  "addOne m key = (case LoadOrStore m key 0 of (val, m') \<Rightarrow> storeAt m' key (val + 1))"

text \<open>The \<open>%d\<close> verb of \<open>fmt.Sprintf\<close> on an \<open>int\<close>.\<close>

definition digitChar :: "nat \<Rightarrow> char" where
  "digitChar n = ''0123456789'' ! (n mod 10)"

function showNat :: "nat \<Rightarrow> string" where
  "showNat n = (if n < 10 then [digitChar n] else showNat (n div 10) @ [digitChar n])"
  by pat_completeness auto
termination
  by (relation "measure id") auto

declare showNat.simps [simp del]

definition showInt :: "int \<Rightarrow> string" where
  "showInt i = (if i < 0 then CHR ''-'' # showNat (nat (- i)) else showNat (nat i))"

definition IncRequestTotal :: "Metrics \<Rightarrow> string \<Rightarrow> string \<Rightarrow> int \<Rightarrow> Metrics" where
  "IncRequestTotal m method path status =
     (let key = method @ ''_'' @ path @ ''_'' @ showInt status
      in m\<lparr>requestTotal := addOne (requestTotal m) key\<rparr>)"

text \<open>
  \<open>duration.Milliseconds()\<close>: the duration is a number of nanoseconds, the division
  truncates towards zero.
\<close>

definition Milliseconds :: "int \<Rightarrow> int" where
  "Milliseconds d = (if d < 0 then - ((- d) div 1000000) else d div 1000000)"

text \<open>
  \<open>ObserveLatency\<close> asserts the type of what the two \<open>LoadOrStore\<close> calls return; a
  failed assertion panics, with the stores made so far in place.
\<close>

definition ObserveLatency :: "Metrics \<Rightarrow> string \<Rightarrow> string \<Rightarrow> int \<Rightarrow> outcome \<times> Metrics" where
  "ObserveLatency m method path duration =
     (let key = method @ ''_'' @ path in
      case LoadOrStore (requestLatency m) key MutexEntry of
        (BucketEntry s n, l1) \<Rightarrow>
          (Panic ''interface conversion: interface {} is *metrics.LatencyBucket, not *sync.Mutex'',
           m\<lparr>requestLatency := l1\<rparr>)
      | (MutexEntry, l1) \<Rightarrow>
          (let bucketKey = key @ ''_bucket'' in
           case LoadOrStore l1 bucketKey (BucketEntry 0 0) of
             (MutexEntry, l2) \<Rightarrow>
               (Panic ''interface conversion: interface {} is *sync.Mutex, not *metrics.LatencyBucket'',
                m\<lparr>requestLatency := l2\<rparr>)
           | (BucketEntry s n, l2) \<Rightarrow>
               (NilErr,
                m\<lparr>requestLatency :=
                     storeAt l2 bucketKey (BucketEntry (s + Milliseconds duration) (n + 1))\<rparr>)))"

definition IncError :: "Metrics \<Rightarrow> string \<Rightarrow> string \<Rightarrow> string \<Rightarrow> Metrics" where
  "IncError m method path errorType =
     (let key = method @ ''_'' @ path @ ''_'' @ errorType
      in m\<lparr>errorTotal := addOne (errorTotal m) key\<rparr>)"

definition IncLogCount :: "Metrics \<Rightarrow> string \<Rightarrow> Metrics" where
  "IncLogCount m level = m\<lparr>logCount := addOne (logCount m) level\<rparr>"

subsection \<open>Rendering\<close>

text \<open>
  The two renderers. The \<open>float64\<close> quotient \<open>bucket.sum / float64(bucket.count)\<close> is
  the parameter \<open>avg\<close>, the \<open>%.2f\<close> verb the parameter \<open>fmt2\<close>, and the uptime read from
  the clock the parameter \<open>uptime\<close>. A failed type assertion is the result \<open>Inl\<close> with
  the panic message.
\<close>

definition quoted :: "string \<Rightarrow> string" where
  "quoted s = CHR 0x22 # s @ [CHR 0x22]"

definition nl :: string where
  "nl = [CHR 0x0A]"

fun renderKeys :: "(string \<Rightarrow> string + string) \<Rightarrow> string list \<Rightarrow> string + string" where
  "renderKeys f [] = Inr []"
| "renderKeys f (key # keys) =
     (case f key of
        Inl p \<Rightarrow> Inl p
      | Inr line \<Rightarrow>
          (case renderKeys f keys of
             Inl p \<Rightarrow> Inl p
           | Inr rest \<Rightarrow> Inr (line @ rest)))"

definition requestLine :: "string \<Rightarrow> 64 word \<Rightarrow> string" where
  "requestLine key val =
     (let parts = SplitN key CHR ''_'' 3 in
      if length parts = 3 then
        ''http_requests_total{method='' @ quoted (parts ! 0) @ '',path='' @ quoted (parts ! 1)
          @ '',status='' @ quoted (parts ! 2) @ ''} '' @ showInt (sint val) @ nl
      else [])"

definition errorLine :: "string \<Rightarrow> 64 word \<Rightarrow> string" where
  "errorLine key val =
     (let parts = SplitN key CHR ''_'' 3 in
      if length parts = 3 then
        ''http_errors_total{method='' @ quoted (parts ! 0) @ '',path='' @ quoted (parts ! 1)
          @ '',type='' @ quoted (parts ! 2) @ ''} '' @ showInt (sint val) @ nl
      else [])"

definition latencyLine ::
  "(int \<Rightarrow> 64 word \<Rightarrow> 'f) \<Rightarrow> ('f \<Rightarrow> string) \<Rightarrow> string \<Rightarrow> LatencyEntry \<Rightarrow> string + string" where
  "latencyLine avg fmt2 key entry =
     (case entry of
        MutexEntry \<Rightarrow>
          Inl ''interface conversion: interface {} is *sync.Mutex, not *metrics.LatencyBucket''
      | BucketEntry s n \<Rightarrow>
          Inr (if 0 < sint n then
                 (let baseKey = TrimSuffix key ''_bucket'';
                      parts = SplitN baseKey CHR ''_'' 2
                  in if length parts = 2 then
                       ''http_request_duration_ms{method='' @ quoted (parts ! 0) @ '',path=''
                         @ quoted (parts ! 1) @ ''} '' @ fmt2 (avg s n) @ nl
                     else [])
               else []))"

definition nilAssertion :: string where
  "nilAssertion = ''interface conversion: interface is nil''"

definition ToPrometheus ::
  "(int \<Rightarrow> 64 word \<Rightarrow> 'f) \<Rightarrow> ('f \<Rightarrow> string) \<Rightarrow> 'f \<Rightarrow> Metrics \<Rightarrow> string + string" where
  "ToPrometheus avg fmt2 uptime m =
     (let requestKeys = sort (map fst (requestTotal m));
          latencyKeys = sort (filter (\<lambda>key. HasSuffix key ''_bucket'') (map fst (requestLatency m)));
          errorKeys = sort (map fst (errorTotal m))
      in
      case renderKeys (\<lambda>key. case map_of (requestTotal m) key of
                               None \<Rightarrow> Inl nilAssertion
                             | Some val \<Rightarrow> Inr (requestLine key val)) requestKeys of
        Inl p \<Rightarrow> Inl p
      | Inr requests \<Rightarrow>
      (case renderKeys (\<lambda>key. case map_of (requestLatency m) key of
                               None \<Rightarrow> Inl nilAssertion
                             | Some entry \<Rightarrow> latencyLine avg fmt2 key entry) latencyKeys of
        Inl p \<Rightarrow> Inl p
      | Inr latencies \<Rightarrow>
      (case renderKeys (\<lambda>key. case map_of (errorTotal m) key of
                               None \<Rightarrow> Inl nilAssertion
                             | Some val \<Rightarrow> Inr (errorLine key val)) errorKeys of
        Inl p \<Rightarrow> Inl p
      | Inr errors \<Rightarrow>
          Inr (''# HELP http_requests_total Total number of HTTP requests'' @ nl
               @ ''# TYPE http_requests_total counter'' @ nl
               @ requests
               @ nl @ ''# HELP http_request_duration_ms HTTP request latency in milliseconds'' @ nl
               @ ''# TYPE http_request_duration_ms gauge'' @ nl
               @ latencies
               @ nl @ ''# HELP http_errors_total Total number of HTTP errors'' @ nl
               @ ''# TYPE http_errors_total counter'' @ nl
               @ errors
               @ nl @ ''# HELP active_connections Current active connections'' @ nl
               @ ''# TYPE active_connections gauge'' @ nl
               @ ''active_connections '' @ showInt (sint (activeConns m)) @ nl
               @ nl @ ''# HELP uptime_seconds Server uptime in seconds'' @ nl
               @ ''# TYPE uptime_seconds gauge'' @ nl
               @ ''uptime_seconds '' @ fmt2 uptime @ nl))))"

record 'f MetricsJSON =
  Requests :: "string \<rightharpoonup> 64 word"
  Errors :: "string \<rightharpoonup> 64 word"
  Latencies :: "string \<rightharpoonup> 'f"
  Logs :: "string \<rightharpoonup> 64 word"
  ActiveConns :: "64 word"
  UptimeSecond :: 'f

fun jsonLatencies ::
  "(int \<Rightarrow> 64 word \<Rightarrow> 'f) \<Rightarrow> (string \<times> LatencyEntry) list \<Rightarrow> (string \<rightharpoonup> 'f)
     \<Rightarrow> string + (string \<rightharpoonup> 'f)" where
  "jsonLatencies avg [] result = Inr result"
| "jsonLatencies avg ((key, entry) # rest) result =
     (if HasSuffix key ''_bucket'' then
        (case entry of
           MutexEntry \<Rightarrow>
             Inl ''interface conversion: interface {} is *sync.Mutex, not *metrics.LatencyBucket''
         | BucketEntry s n \<Rightarrow>
             if 0 < sint n then
               jsonLatencies avg rest (result(TrimSuffix key ''_bucket'' \<mapsto> avg s n))
             else jsonLatencies avg rest result)
      else jsonLatencies avg rest result)"

definition ToJSON :: "(int \<Rightarrow> 64 word \<Rightarrow> 'f) \<Rightarrow> 'f \<Rightarrow> Metrics \<Rightarrow> string + 'f MetricsJSON" where
  "ToJSON avg uptime m =
     (case jsonLatencies avg (requestLatency m) Map.empty of
        Inl p \<Rightarrow> Inl p
      | Inr latencies \<Rightarrow>
          Inr \<lparr>Requests = map_of (requestTotal m), Errors = map_of (errorTotal m),
               Latencies = latencies, Logs = map_of (logCount m),
               ActiveConns = activeConns m, UptimeSecond = uptime\<rparr>)"

section \<open>Application and dispatcher (App)\<close>

text \<open>
  The application state the dispatcher works on: the shared route table, the global
  middleware, the logger, the metrics collector (\<open>nil\<close> when metrics are off) and the
  context pool. \<open>sync.Pool\<close> is a stack of released contexts: \<open>Get\<close> pops one, or
  calls \<open>New\<close> when there is none.
\<close>

record 'v App =
  appRoutes :: "('v Ctx) Route list"
  appMiddleware :: "('v Ctx) Middleware list"
  logger :: Logger
  metrics :: "Metrics option"
  pool :: "'v Ctx list"

definition pool_New :: "'v Ctx" where
  "pool_New = \<lparr>RequestCtx = None, Params = Map.empty, Locals = Map.empty, Logger = None,
               Auth = None\<rparr>"

definition pool_Get :: "'v Ctx list \<Rightarrow> 'v Ctx \<times> 'v Ctx list" where
  "pool_Get p = (case p of [] \<Rightarrow> (pool_New, []) | c # cs \<Rightarrow> (c, cs))"

definition pool_Put :: "'v Ctx list \<Rightarrow> 'v Ctx \<Rightarrow> 'v Ctx list" where
  "pool_Put p c = c # p"

text \<open>
  \<open>acquireCtx\<close> attaches the transport handle and the logger and deletes every key of
  the two maps; it assigns no other field.
\<close>

definition acquireCtx :: "'v App \<Rightarrow> RequestCtx \<Rightarrow> 'v Ctx \<times> 'v App" where
  "acquireCtx a fctx =
     (case pool_Get (pool a) of
        (c, p) \<Rightarrow>
          (c\<lparr>RequestCtx := Some fctx, Logger := Some (logger a), Params := Map.empty,
             Locals := Map.empty\<rparr>,
           a\<lparr>pool := p\<rparr>))"

definition releaseCtx :: "'v App \<Rightarrow> 'v Ctx \<Rightarrow> 'v App" where
  "releaseCtx a c = a\<lparr>pool := pool_Put (pool a) (c\<lparr>RequestCtx := None, Logger := None\<rparr>)\<rparr>"

text \<open>
  \<open>logger.Error\<close>: the console logger only prints; the metrics logger installed by
  \<open>New\<close> counts the call in the application's metrics first.
\<close>

fun logError :: "Logger \<Rightarrow> Metrics \<Rightarrow> Metrics" where
  "logError ConsoleLogger m = m"
| "logError (MetricsLogger inner) m = logError inner (IncLogCount m ''error'')"

definition recordMetrics ::
  "Metrics option \<Rightarrow> string \<Rightarrow> string \<Rightarrow> int \<Rightarrow> int \<Rightarrow> string \<Rightarrow> outcome \<times> Metrics option" where
  "recordMetrics ms method path status duration errorType =
     (case ms of
        None \<Rightarrow> (NilErr, None)
      | Some m \<Rightarrow>
          (case ObserveLatency (IncRequestTotal m method path status) method path duration of
             (Panic msg, m') \<Rightarrow> (Panic msg, Some m')
           | (r, m') \<Rightarrow>
               if errorType \<noteq> [] then (NilErr, Some (IncError m' method path errorType))
               else (NilErr, Some m')))"

text \<open>
  \<open>handleRequest\<close>. \<open>StatusCode\<close> is the transport's reader of the response status
  (\<open>Response.StatusCode()\<close> of the HTTP library) and \<open>duration\<close> the measured
  \<open>time.Since(start)\<close>. The result is the outcome (\<open>NilErr\<close> for a normal return), the
  transport's request context as the dispatcher leaves it, and the application state;
  the deferred \<open>releaseCtx\<close> runs on every path, a panic included. Handlers and
  middleware act on the context they are given (the transport's request and response
  are reached through it).
\<close>

definition handleRequest ::
  "(Response \<Rightarrow> int) \<Rightarrow> 'v App \<Rightarrow> RequestCtx \<Rightarrow> int
     \<Rightarrow> outcome \<times> RequestCtx option \<times> 'v App" where
  "handleRequest StatusCode a fctx duration =
     (case acquireCtx a fctx of
        (c, a1) \<Rightarrow>
     (let method = reqMethod fctx; path = reqPath fctx in
      case find (appRoutes a1) method path of
        None \<Rightarrow>
          (case Status c StatusNotFound of
             None \<Rightarrow> (nilDeref, RequestCtx c, releaseCtx a1 c)
           | Some c1 \<Rightarrow>
               (case JSON c1 StatusNotFound [(''error'', ''not found'')] of
                  (Panic msg, c2) \<Rightarrow> (Panic msg, RequestCtx c2, releaseCtx a1 c2)
                | (r, c2) \<Rightarrow>
                    (case recordMetrics (metrics a1) method path StatusNotFound duration
                            ''not_found'' of
                       (res, ms) \<Rightarrow> (res, RequestCtx c2, releaseCtx (a1\<lparr>metrics := ms\<rparr>) c2))))
      | Some (route, params) \<Rightarrow>
          (let c1 = c\<lparr>Params := Params c ++ params\<rparr>;
               handler = buildChain (appMiddleware a1) (Handlers route) (middleware route)
           in case handler c1 of
                (Panic msg, c2) \<Rightarrow> (Panic msg, RequestCtx c2, releaseCtx a1 c2)
              | (Err e, c2) \<Rightarrow>
                  (let a2 = a1\<lparr>metrics := map_option (logError (logger a1)) (metrics a1)\<rparr> in
                   case RequestCtx c2 of
                     None \<Rightarrow> (nilDeref, None, releaseCtx a2 c2)
                   | Some f2 \<Rightarrow>
                       (let status = StatusCode (Response f2) in
                        if status = 0 then
                          (case Status c2 StatusInternalServerError of
                             None \<Rightarrow> (nilDeref, RequestCtx c2, releaseCtx a2 c2)
                           | Some c3 \<Rightarrow>
                               (case JSON c3 StatusInternalServerError
                                       [(''error'', ''internal server error'')] of
                                  (Panic msg, c4) \<Rightarrow> (Panic msg, RequestCtx c4, releaseCtx a2 c4)
                                | (r, c4) \<Rightarrow>
                                    (case recordMetrics (metrics a2) method (Path route)
                                            StatusInternalServerError duration ''handler_error'' of
                                       (res, ms) \<Rightarrow>
                                         (res, RequestCtx c4, releaseCtx (a2\<lparr>metrics := ms\<rparr>) c4))))
                        else
                          (case recordMetrics (metrics a2) method (Path route) status duration
                                  ''handler_error'' of
                             (res, ms) \<Rightarrow> (res, RequestCtx c2, releaseCtx (a2\<lparr>metrics := ms\<rparr>) c2))))
              | (NilErr, c2) \<Rightarrow>
                  (case RequestCtx c2 of
                     None \<Rightarrow> (nilDeref, None, releaseCtx a1 c2)
                   | Some f2 \<Rightarrow>
                       (let status0 = StatusCode (Response f2);
                            status = (if status0 = 0 then StatusOK else status0)
                        in case recordMetrics (metrics a1) method (Path route) status duration [] of
                             (res, ms) \<Rightarrow>
                               (res, RequestCtx c2, releaseCtx (a1\<lparr>metrics := ms\<rparr>) c2))))))"

text \<open>
  \<open>Response.StatusCode()\<close> of the transport library (fasthttp), which is not part of
  this repository: it reports 200 for a response whose status was never set, and the
  stored status otherwise.
\<close>

definition fasthttp_StatusCode :: "Response \<Rightarrow> int" where
  "fasthttp_StatusCode r = (if statusCode r = 0 then 200 else statusCode r)"

section \<open>A two-route application used in the scenarios\<close>

text \<open>
  Fixtures for the dispatcher scenarios: a base64 decoder that knows the one
  credential of the specification's Basic-auth scenario, a handler that reports who
  the context says the caller is (the README's way of reading \<open>GetAuth\<close>), an
  application with a protected and a public route, and a request constructor.
\<close>

definition decodeKnown :: "string \<Rightarrow> string option" where
  "decodeKnown s = (if s = ''YWRtaW46c2VjcmV0'' then Some ''admin:secret'' else None)"

definition whoami :: "(unit Ctx) Handler" where
  "whoami c =
     (case GetAuth c of
        Some auth \<Rightarrow>
          if Valid auth then JSON c StatusOK [(''username'', Username auth)]
          else Unauthorized c ''not authenticated''
      | None \<Rightarrow> Unauthorized c ''not authenticated'')"

definition demoApp :: "unit App" where
  "demoApp =
     \<lparr>appRoutes =
        [\<lparr>Method = ''GET'', Path = ''/private'', Handlers = [\<lambda>c. JSON c StatusOK [(''ok'', ''1'')]],
          middleware = [BasicAuth decodeKnown (\<lambda>u p. u = ''admin'' \<and> p = ''secret'')]\<rparr>,
         \<lparr>Method = ''GET'', Path = ''/public'', Handlers = [whoami], middleware = []\<rparr>],
      appMiddleware = [], logger = ConsoleLogger, metrics = None, pool = []\<rparr>"

definition request :: "string \<Rightarrow> string \<Rightarrow> (string \<Rightarrow> string) \<Rightarrow> RequestCtx" where
  "request method path headers =
     \<lparr>reqMethod = method, reqPath = path, reqHeader = headers,
      Response = \<lparr>statusCode = 0, contentType = [], respHeader = Map.empty, body = NoBody\<rparr>\<rparr>"

definition failApp :: "unit App" where
  "failApp =
     \<lparr>appRoutes =
        [\<lparr>Method = ''GET'', Path = ''/fail/:id'', Handlers = [\<lambda>c. (Err ''boom'', c)],
          middleware = []\<rparr>],
      appMiddleware = [], logger = ConsoleLogger, metrics = Some New_Metrics, pool = []\<rparr>"

section \<open>Properties of path matching\<close>


lemma matchLoop_succeeds:
  "(\<exists>params. matchLoop zs p0 = Some params) =
     (\<forall>(part, seg)\<in>set zs. \<not> HasPrefix part '':'' \<longrightarrow> part = seg)"
proof (induction zs arbitrary: p0)
  case Nil
  then show ?case by simp
next
  case (Cons z zs)
  obtain a b where z: "z = (a, b)" by (cases z)
  show ?case unfolding z by (simp add: Cons)
qed

lemma matchLoop_dom:
  "matchLoop zs p0 = Some params \<Longrightarrow>
   dom params = dom p0 \<union> {drop 1 part |part seg. (part, seg) \<in> set zs \<and> HasPrefix part '':''}"
proof (induction zs arbitrary: p0)
  case Nil
  then show ?case by simp
next
  case (Cons z zs)
  obtain a b where z: "z = (a, b)" by (cases z)
  let ?X = "{drop 1 part |part seg. (part, seg) \<in> set zs \<and> HasPrefix part '':''}"
  show ?case
  proof (cases "HasPrefix a '':''")
    case True
    with Cons.prems have "matchLoop zs (p0(drop 1 a \<mapsto> b)) = Some params"
      by (simp add: z)
    from Cons.IH[OF this] have d: "dom params = insert (drop 1 a) (dom p0) \<union> ?X"
      by (simp only: dom_fun_upd option.simps if_False)
    have "{drop 1 part |part seg. (part, seg) \<in> set (z # zs) \<and> HasPrefix part '':''}
        = insert (drop 1 a) ?X"
      using True unfolding z by auto
    with d show ?thesis by (simp only: Un_insert_left Un_insert_right)
  next
    case False
    with Cons.prems have "matchLoop zs p0 = Some params"
      by (simp add: z split: if_splits)
    from Cons.IH[OF this] have d: "dom params = dom p0 \<union> ?X" .
    have "{drop 1 part |part seg. (part, seg) \<in> set (z # zs) \<and> HasPrefix part '':''} = ?X"
      using False unfolding z by auto
    with d show ?thesis by (simp only:)
  qed
qed

lemma split_last_Cons:
  "(\<exists>before part after. z # rest = before @ (part, v) # after \<and> P part \<and> (\<forall>(p', s')\<in>set after. \<not> P p'))
   = ((\<exists>before part after. rest = before @ (part, v) # after \<and> P part \<and> (\<forall>(p', s')\<in>set after. \<not> P p'))
      \<or> (snd z = v \<and> P (fst z) \<and> (\<forall>(p', s')\<in>set rest. \<not> P p')))"
  (is "?L = (?D \<or> ?H)")
proof
  assume ?L
  then obtain before part after where eq: "z # rest = before @ (part, v) # after"
    and p: "P part" and q: "\<forall>(p', s')\<in>set after. \<not> P p'"
    by blast
  show "?D \<or> ?H"
  proof (cases before)
    case Nil
    with eq have "z = (part, v)" and "rest = after" by simp_all
    with p q have ?H by simp
    then show ?thesis ..
  next
    case (Cons b bs)
    with eq have "rest = bs @ (part, v) # after" by simp
    with p q have ?D by blast
    then show ?thesis ..
  qed
next
  assume "?D \<or> ?H"
  then show ?L
  proof
    assume ?D
    then obtain before part after where eq: "rest = before @ (part, v) # after"
      and p: "P part" and q: "\<forall>(p', s')\<in>set after. \<not> P p'"
      by blast
    from eq have "z # rest = (z # before) @ (part, v) # after" by simp
    with p q show ?L by blast
  next
    assume h: ?H
    then have "z # rest = [] @ (fst z, v) # rest" by (cases z) simp
    with h show ?L by blast
  qed
qed

lemma matchLoop_last_wins:
  "matchLoop zs p0 = Some params \<Longrightarrow>
   (params name = Some v) =
     ((\<exists>before part after. zs = before @ (part, v) # after
          \<and> (HasPrefix part '':'' \<and> drop 1 part = name)
          \<and> (\<forall>(part', seg')\<in>set after. \<not> (HasPrefix part' '':'' \<and> drop 1 part' = name)))
      \<or> ((\<forall>(part', seg')\<in>set zs. \<not> (HasPrefix part' '':'' \<and> drop 1 part' = name))
          \<and> p0 name = Some v))"
proof (induction zs arbitrary: p0)
  case Nil
  then show ?case by simp
next
  case (Cons z zs)
  obtain a b where z: "z = (a, b)" by (cases z)
  let ?P = "\<lambda>part. HasPrefix part '':'' \<and> drop 1 part = name"
  let ?D = "\<lambda>zs. \<exists>before part after. zs = before @ (part, v) # after \<and> ?P part
              \<and> (\<forall>(part', seg')\<in>set after. \<not> ?P part')"
  let ?N = "\<lambda>zs. \<forall>(part', seg')\<in>set zs. \<not> ?P part'"
  have DC: "?D (z # zs) = (?D zs \<or> (b = v \<and> ?P a \<and> ?N zs))"
    using split_last_Cons[of z zs v ?P] by (simp add: z)
  have NC: "?N (z # zs) = (\<not> ?P a \<and> ?N zs)"
    by (simp add: z)
  show ?case
  proof (cases "HasPrefix a '':''")
    case True
    with Cons.prems have run: "matchLoop zs (p0(drop 1 a \<mapsto> b)) = Some params"
      by (simp add: z)
    note IH = Cons.IH[OF run]
    show ?thesis
    proof (cases "drop 1 a = name")
      case nm: True
      have "(p0(drop 1 a \<mapsto> b)) name = Some v \<longleftrightarrow> b = v"
        unfolding nm[symmetric] by simp
      with IH have "(params name = Some v) = (?D zs \<or> (?N zs \<and> b = v))" by simp
      moreover have "?P a" using True nm by simp
      ultimately show ?thesis unfolding DC NC by blast
    next
      case nm: False
      have "(p0(drop 1 a \<mapsto> b)) name = p0 name"
        using nm by simp
      with IH have "(params name = Some v) = (?D zs \<or> (?N zs \<and> p0 name = Some v))" by simp
      moreover have "\<not> ?P a" using nm by simp
      ultimately show ?thesis unfolding DC NC by blast
    qed
  next
    case False
    with Cons.prems have run: "matchLoop zs p0 = Some params"
      by (simp add: z split: if_splits)
    note IH = Cons.IH[OF run]
    have "\<not> ?P a" using False by simp
    with IH show ?thesis unfolding DC NC by blast
  qed
qed


text \<open>
  Claim C7, as the code has it. \<open>matchPath\<close> splits pattern and path on \<open>/\<close>. It
  succeeds exactly when the two have the same number of segments and every pattern
  segment that does not start with \<open>:\<close> equals the path segment at its position (byte
  for byte, so case matters); a segment \<open>:name\<close> accepts any path segment. On success
  the bound names are exactly the names of the \<open>:name\<close> segments, and a name is bound
  to \<open>v\<close> exactly when \<open>v\<close> is the path segment facing the last pattern segment that
  carries this name: a later \<open>:name\<close> overwrites the binding of an earlier one.
\<close>

theorem matchPath_segments:
  "let pp = Split pattern CHR ''/''; sp = Split path CHR ''/'' in
     ((\<exists>params. matchPath pattern path = Some params) =
        (length pp = length sp \<and>
         (\<forall>(part, seg)\<in>set (zip pp sp). \<not> HasPrefix part '':'' \<longrightarrow> part = seg)))
     \<and> (\<forall>params. matchPath pattern path = Some params \<longrightarrow>
          dom params = {drop 1 part |part. part \<in> set pp \<and> HasPrefix part '':''}
          \<and> (\<forall>name v. (params name = Some v) =
                (\<exists>before part after. zip pp sp = before @ (part, v) # after
                   \<and> (HasPrefix part '':'' \<and> drop 1 part = name)
                   \<and> (\<forall>(part', seg')\<in>set after.
                          \<not> (HasPrefix part' '':'' \<and> drop 1 part' = name)))))"
proof -
  define pp where "pp = Split pattern CHR ''/''"
  define sp where "sp = Split path CHR ''/''"
  have mp: "matchPath pattern path =
      (if length pp \<noteq> length sp then None else matchLoop (zip pp sp) Map.empty)"
    by (simp add: matchPath_def pp_def sp_def)
  have succ: "(\<exists>params. matchPath pattern path = Some params) =
        (length pp = length sp \<and>
         (\<forall>(part, seg)\<in>set (zip pp sp). \<not> HasPrefix part '':'' \<longrightarrow> part = seg))"
    using matchLoop_succeeds[of "zip pp sp" Map.empty] by (simp add: mp)
  have rest: "dom params = {drop 1 part |part. part \<in> set pp \<and> HasPrefix part '':''}
          \<and> (\<forall>name v. (params name = Some v) =
                (\<exists>before part after. zip pp sp = before @ (part, v) # after
                   \<and> (HasPrefix part '':'' \<and> drop 1 part = name)
                   \<and> (\<forall>(part', seg')\<in>set after.
                          \<not> (HasPrefix part' '':'' \<and> drop 1 part' = name))))"
    if ok: "matchPath pattern path = Some params" for params
  proof -
    from ok have len: "length pp = length sp"
      and run: "matchLoop (zip pp sp) Map.empty = Some params"
      by (simp_all add: mp split: if_splits)
    have fsts: "map fst (zip pp sp) = pp"
      using len by simp
    have "{drop 1 part |part seg. (part, seg) \<in> set (zip pp sp) \<and> HasPrefix part '':''}
        = {drop 1 part |part. part \<in> fst ` set (zip pp sp) \<and> HasPrefix part '':''}"
      by force
    also have "fst ` set (zip pp sp) = set pp"
      using fsts by (metis set_map)
    finally have d: "dom params = {drop 1 part |part. part \<in> set pp \<and> HasPrefix part '':''}"
      using matchLoop_dom[OF run] by simp
    have b: "(params name = Some v) =
                (\<exists>before part after. zip pp sp = before @ (part, v) # after
                   \<and> (HasPrefix part '':'' \<and> drop 1 part = name)
                   \<and> (\<forall>(part', seg')\<in>set after.
                          \<not> (HasPrefix part' '':'' \<and> drop 1 part' = name)))" for name v
      using matchLoop_last_wins[OF run, of name v] by simp
    from d b show ?thesis by blast
  qed
  from succ rest show ?thesis
    unfolding Let_def pp_def sp_def by blast
qed

theorem matchPath_segments_witness:
  "(\<exists>params. matchPath ''/users/:id'' ''/users/42'' = Some params
       \<and> dom params = {''id''} \<and> params ''id'' = Some ''42'')
   \<and> matchPath ''/users/:id'' ''/users/42/extra'' = None
   \<and> matchPath ''/users/:id'' ''/Users/42'' = None"
proof -
  let ?pp = "['''', ''users'', '':id'']"
  let ?sp = "['''', ''users'', ''42'']"
  have pp: "Split ''/users/:id'' CHR ''/'' = ?pp"
    and sp: "Split ''/users/42'' CHR ''/'' = ?sp"
    by simp_all
  have hp: "\<not> HasPrefix '''' '':''" "\<not> HasPrefix ''users'' '':''" "HasPrefix '':id'' '':''"
    by (simp_all add: HasPrefix_def)
  obtain params where ok: "matchPath ''/users/:id'' ''/users/42'' = Some params"
    by (simp add: matchPath_def hp)
  note inst = matchPath_segments[of "''/users/:id''" "''/users/42''", unfolded Let_def pp sp]
  note facts = inst[THEN conjunct2, rule_format, OF ok]
  note d = facts[THEN conjunct1]
  note b = facts[THEN conjunct2, rule_format, of "''id''" "''42''"]
  have "{drop 1 part |part. part \<in> set ?pp \<and> HasPrefix part '':''} = {''id''}"
  proof (intro equalityI subsetI)
    fix x assume "x \<in> {drop 1 part |part. part \<in> set ?pp \<and> HasPrefix part '':''}"
    then show "x \<in> {''id''}" using hp by auto
  next
    fix x assume "x \<in> {''id''}"
    then have "x = drop 1 '':id'' \<and> '':id'' \<in> set ?pp \<and> HasPrefix '':id'' '':''"
      using hp by simp
    then show "x \<in> {drop 1 part |part. part \<in> set ?pp \<and> HasPrefix part '':''}"
      by blast
  qed
  with d have dom: "dom params = {''id''}" by (simp only:)
  have "zip ?pp ?sp = [('''', ''''), (''users'', ''users'')] @ ('':id'', ''42'') # []
      \<and> (HasPrefix '':id'' '':'' \<and> drop 1 '':id'' = ''id'')
      \<and> (\<forall>(part', seg')\<in>set []. \<not> (HasPrefix part' '':'' \<and> drop 1 part' = ''id''))"
    using hp(3) by simp
  then have "\<exists>before part after. zip ?pp ?sp = before @ (part, ''42'') # after
      \<and> (HasPrefix part '':'' \<and> drop 1 part = ''id'')
      \<and> (\<forall>(part', seg')\<in>set after. \<not> (HasPrefix part' '':'' \<and> drop 1 part' = ''id''))"
    by (intro exI)
  with b have bind: "params ''id'' = Some ''42''" by (rule iffD2)
  have no1: "matchPath ''/users/:id'' ''/users/42/extra'' = None"
    by (simp add: matchPath_def)
  have no2: "matchPath ''/users/:id'' ''/Users/42'' = None"
    by (simp add: matchPath_def hp)
  show ?thesis
  proof (intro conjI exI[of _ params])
    show "matchPath ''/users/:id'' ''/users/42'' = Some params" by (rule ok)
    show "dom params = {''id''}" by (rule dom)
    show "params ''id'' = Some ''42''" by (rule bind)
    show "matchPath ''/users/:id'' ''/users/42/extra'' = None" by (rule no1)
    show "matchPath ''/users/:id'' ''/Users/42'' = None" by (rule no2)
  qed
qed

text \<open>
  A pattern may name two segments alike. The first \<open>:x\<close> of \<open>/a/:x/:x\<close> faces \<open>1\<close> in
  \<open>/a/1/2\<close>, but the match binds \<open>x\<close> to \<open>2\<close>: the binding made for the first segment
  is overwritten.
\<close>

theorem matchPath_repeated_name_counterexample:
  "matchPath ''/a/:x/:x'' ''/a/1/2'' \<noteq> None
   \<and> the (matchPath ''/a/:x/:x'' ''/a/1/2'') ''x'' = Some ''2''
   \<and> the (matchPath ''/a/:x/:x'' ''/a/1/2'') ''x'' \<noteq> Some ''1''"
  by (simp add: matchPath_def HasPrefix_def)

section \<open>Registration\<close>

text \<open>
  Claim C3, as the code has it. \<open>add\<close> validates nothing and has no failure result:
  for every method, pattern and handler list, the empty pattern included, it appends
  exactly one route, whose path is the router's prefix followed by the pattern and
  whose middleware is the router's middleware at that moment, leaving the routes
  already in the table in place.
\<close>

theorem add_always_appends:
  "length (add r routes method path handlers) = Suc (length routes)
   \<and> take (length routes) (add r routes method path handlers) = routes
   \<and> last (add r routes method path handlers) =
       \<lparr>Method = method, Path = prefix r @ path, Handlers = handlers,
        middleware = rmiddleware r\<rparr>"
  by (simp add: add_def)

text \<open>
  Registering the empty pattern (and a pattern with an empty parameter name) does not
  fail: each is appended to the table like any other.
\<close>

theorem add_malformed_counterexample:
  "map Path (add (newRouter '''') (add (newRouter '''') ([] :: unit Route list) ''GET'' '''' [])
       ''GET'' ''/a/:/:'' []) = ['''', ''/a/:/:'']"
  by (simp add: add_def newRouter_def)
lemma find_append:
  "find (xs @ ys) method path =
     (case find xs method path of Some x \<Rightarrow> Some x | None \<Rightarrow> find ys method path)"
  by (induction xs) (simp_all split: option.splits)

lemma find_none:
  "\<forall>r\<in>set pre. Method r = method \<longrightarrow> matchPath (Path r) path = None \<Longrightarrow>
   find pre method path = None"
  by (induction pre) simp_all

text \<open>
  Claim C6. The scan of \<open>find\<close> returns the first route, in registration order, whose
  method equals the request's and whose pattern matches the path. When \<open>R1\<close> matches,
  the answer is decided by the table up to and including \<open>R1\<close>: no route registered
  after it (an \<open>R2\<close> in \<open>post\<close>) is ever selected in its place, and when no route before
  \<open>R1\<close> matches, \<open>R1\<close> itself is returned with its bindings.
\<close>

theorem find_first_match:
  assumes "Method R1 = method" and "matchPath (Path R1) path = Some ps"
  shows "find (pre @ R1 # post) method path = find (pre @ [R1]) method path
     \<and> find (pre @ R1 # post) method path \<noteq> None
     \<and> ((\<forall>r\<in>set pre. Method r = method \<longrightarrow> matchPath (Path r) path = None) \<longrightarrow>
          find (pre @ R1 # post) method path = Some (R1, ps))"
proof -
  have one: "find (R1 # post) method path = Some (R1, ps)"
    and single: "find [R1] method path = Some (R1, ps)"
    using assms by simp_all
  have eq: "find (pre @ R1 # post) method path = find (pre @ [R1]) method path"
    by (simp only: find_append[of pre] one single)
  have ne: "find (pre @ R1 # post) method path \<noteq> None"
    by (simp only: find_append[of pre] one split: option.splits) simp
  have first: "find (pre @ R1 # post) method path = Some (R1, ps)"
    if "\<forall>r\<in>set pre. Method r = method \<longrightarrow> matchPath (Path r) path = None"
    by (simp only: find_append[of pre] one find_none[OF that] option.case)
  from eq ne first show ?thesis by blast
qed

theorem find_first_match_witness:
  "find ([\<lparr>Method = ''POST'', Path = ''/a'', Handlers = [], middleware = []\<rparr>]
         @ \<lparr>Method = ''GET'', Path = ''/a/:x'', Handlers = [], middleware = []\<rparr>
         # [\<lparr>Method = ''GET'', Path = ''/a/:y'', Handlers = [], middleware = []\<rparr>])
        ''GET'' ''/a/b''
     = Some (\<lparr>Method = ''GET'', Path = ''/a/:x'', Handlers = ([] :: unit Handler list),
              middleware = []\<rparr>, [''x'' \<mapsto> ''b''])"
proof -
  have m: "matchPath ''/a/:x'' ''/a/b'' = Some [''x'' \<mapsto> ''b'']"
    by (simp add: matchPath_def HasPrefix_def)
  show ?thesis
    using find_first_match[of "\<lparr>Method = ''GET'', Path = ''/a/:x'', Handlers = [], middleware = []\<rparr>"
        "''GET''" "''/a/b''" "[''x'' \<mapsto> ''b'']"
        "[\<lparr>Method = ''POST'', Path = ''/a'', Handlers = [], middleware = []\<rparr>]"
        "[\<lparr>Method = ''GET'', Path = ''/a/:y'', Handlers = [], middleware = []\<rparr>]"] m
    by simp
qed


section \<open>Properties of the chain builder\<close>

lemma runHandlers_Cons:
  "hs \<noteq> [] \<Longrightarrow> runHandlers (h # hs) =
     (\<lambda>c. case h c of (NilErr, c') \<Rightarrow> runHandlers hs c' | (err, c') \<Rightarrow> (err, c'))"
  by (cases hs) (auto simp: fun_eq_iff)

lemma chainHandlers_runHandlers:
  "k < length hs \<Longrightarrow> chainHandlers k hs (runHandlers (drop k hs)) = runHandlers hs"
proof (induction k)
  case 0
  then show ?case by simp
next
  case (Suc k)
  then have k: "k < length hs" and ne: "drop (Suc k) hs \<noteq> []" by simp_all
  have "drop k hs = hs ! k # drop (Suc k) hs"
    using k by (simp add: Cons_nth_drop_Suc)
  then have "runHandlers (drop k hs) =
      (\<lambda>c. case (hs ! k) c of (NilErr, c') \<Rightarrow> runHandlers (drop (Suc k) hs) c'
                              | (err, c') \<Rightarrow> (err, c'))"
    using runHandlers_Cons[OF ne, of "hs ! k"] by simp
  then have "chainHandlers (Suc k) hs (runHandlers (drop (Suc k) hs))
      = chainHandlers k hs (runHandlers (drop k hs))"
    by simp
  with Suc.IH[OF k] show ?case by simp
qed

lemma wrapMiddleware_foldr:
  "k \<le> length ms \<Longrightarrow> wrapMiddleware k ms final = foldr (\<lambda>m h. m h) (take k ms) final"
proof (induction k arbitrary: final)
  case 0
  then show ?case by simp
next
  case (Suc k)
  then have k: "k < length ms" by simp
  have "wrapMiddleware (Suc k) ms final = foldr (\<lambda>m h. m h) (take k ms) ((ms ! k) final)"
    using Suc.IH[of "(ms ! k) final"] k by simp
  also have "\<dots> = foldr (\<lambda>m h. m h) (take k ms @ [ms ! k]) final"
    by simp
  also have "take k ms @ [ms ! k] = take (Suc k) ms"
    using k by (simp add: take_Suc_conv_app_nth)
  finally show ?case .
qed

lemma buildChain_fold:
  assumes "handlers \<noteq> []"
  shows "buildChain g handlers r = foldr (\<lambda>m h. m h) (g @ r) (runHandlers handlers)"
proof -
  let ?n = "length handlers"
  have n: "?n - 1 < ?n" using assms by simp
  have "drop (?n - 1) handlers = [handlers ! (?n - 1)]"
    using assms by (metis Cons_nth_drop_Suc Suc_diff_1 drop_all length_greater_0_conv n order_refl)
  then have "runHandlers (drop (?n - 1) handlers) = handlers ! (?n - 1)"
    by (simp add: fun_eq_iff)
  with chainHandlers_runHandlers[OF n]
  have "chainHandlers (?n - 1) handlers (handlers ! (?n - 1)) = runHandlers handlers"
    by simp
  then show ?thesis
    using assms by (simp add: buildChain_def Let_def wrapMiddleware_foldr)
qed

lemma buildChain_no_handlers:
  "buildChain g [] r = (\<lambda>c. (NilErr, c))"
  by (simp add: buildChain_def)

lemma observer_three:
  "observer a (observer b (observer c h)) log =
     (case h (log @ [Before a, Before b, Before c]) of
        (Panic m, log') \<Rightarrow> (Panic m, log')
      | (res, log') \<Rightarrow> (res, log' @ [After c, After b, After a]))"
  by (simp add: observer_def split: prod.splits outcome.splits)

text \<open>
  Claim C8, as the code has it. For a route with at least one handler, the composed
  chain is the terminal handler (the handlers run left to right, each passing control
  on only when it returns no failure, the last one's result being the result) wrapped
  first by the route-local middleware and then by the global middleware, the
  earlier-registered middleware of each tier outermost. For a route with no handler
  the chain is a handler that does nothing, and no middleware is applied to it. With
  global observers \<open>a\<close>, \<open>b\<close>, route observer \<open>c\<close> and one handler, the log reads
  \<open>a, b, c\<close> before the handler and, when the handler returns, \<open>c, b, a\<close> after it;
  when the handler panics no observer logs after it.
\<close>

theorem buildChain_order:
  "(handlers \<noteq> [] \<longrightarrow>
      buildChain g handlers r =
        foldr (\<lambda>m h. m h) g (foldr (\<lambda>m h. m h) r (runHandlers handlers)))
   \<and> (handlers = [] \<longrightarrow> buildChain g handlers r = (\<lambda>c. (NilErr, c)))
   \<and> (\<forall>h log. buildChain [observer a, observer b] [h] [observer c] log =
           (case h (log @ [Before a, Before b, Before c]) of
              (Panic m, log') \<Rightarrow> (Panic m, log')
            | (res, log') \<Rightarrow> (res, log' @ [After c, After b, After a])))"
proof -
  have one: "buildChain g handlers r =
        foldr (\<lambda>m h. m h) g (foldr (\<lambda>m h. m h) r (runHandlers handlers))"
    if "handlers \<noteq> []"
    using buildChain_fold[OF that, of g r] by simp
  have two: "buildChain g handlers r = (\<lambda>c. (NilErr, c))" if "handlers = []"
    using that by (simp add: buildChain_no_handlers)
  have single: "runHandlers [h] = h" for h :: "(event list) Handler"
    by (simp add: fun_eq_iff)
  have "buildChain [observer a, observer b] [h] [observer c] =
          observer a (observer b (observer c h))" for h
    by (simp add: buildChain_fold single)
  then have three: "\<forall>h log. buildChain [observer a, observer b] [h] [observer c] log =
           (case h (log @ [Before a, Before b, Before c]) of
              (Panic m, log') \<Rightarrow> (Panic m, log')
            | (res, log') \<Rightarrow> (res, log' @ [After c, After b, After a]))"
    by (simp only: observer_three) simp
  from one two three show ?thesis by blast
qed

theorem buildChain_order_witness:
  "buildChain [observer ''A'', observer ''B'']
      [\<lambda>log. (NilErr, log @ [Before ''h1'']), \<lambda>log. (Err ''boom'', log @ [Before ''h2'']),
       \<lambda>log. (NilErr, log @ [Before ''h3''])]
      [observer ''C''] []
   = (Err ''boom'',
      [Before ''A'', Before ''B'', Before ''C'', Before ''h1'', Before ''h2'',
       After ''C'', After ''B'', After ''A''])"
proof -
  let ?hs = "[\<lambda>log. (NilErr, log @ [Before ''h1'']), \<lambda>log. (Err ''boom'', log @ [Before ''h2'']),
       \<lambda>log. (NilErr, log @ [Before ''h3''])] :: (event list) Handler list"
  have ne: "?hs \<noteq> []" by simp
  note inst = buildChain_order[of ?hs "[observer ''A'', observer ''B'']" "[observer ''C'']",
      THEN conjunct1, THEN mp, OF ne]
  show ?thesis
    unfolding inst by (simp add: observer_def)
qed

text \<open>
  A route registered without a handler: the chain built for it runs neither the
  global observer \<open>A\<close> nor the route observer \<open>C\<close>, and the log stays empty.
\<close>

theorem buildChain_no_handler_counterexample:
  "buildChain [observer ''A''] [] [observer ''C''] [] = (NilErr, [])"
  by (simp add: buildChain_def)

section \<open>Properties of the auth strategies\<close>

lemma cutAt_Some:
  "cutAt sep s = Some (a, b) \<Longrightarrow> s = a @ sep # b \<and> sep \<notin> set a"
  by (induction s arbitrary: a) (auto split: if_splits option.splits)

lemma SplitN_two:
  "SplitN s sep 2 = (case cutAt sep s of None \<Rightarrow> [s] | Some (a, b) \<Rightarrow> [a, b])"
  by (simp add: numeral_2_eq_2 split: option.splits)

lemma withResponse_Auth:
  "withResponse c upd = Some c' \<Longrightarrow> Auth c' = Auth c"
  by (auto simp: withResponse_def)

lemma Set_Auth: "Set c k v = Some c' \<Longrightarrow> Auth c' = Auth c"
  unfolding Set_def by (rule withResponse_Auth)

lemma JSON_Auth: "Auth (snd (JSON c status v)) = Auth c"
  by (auto simp: JSON_def dest: withResponse_Auth split: option.splits)

lemma Unauthorized_Auth: "Auth (snd (Unauthorized c msg)) = Auth c"
  by (simp add: Unauthorized_def JSON_Auth)

lemma blockedI:
  "(\<And>next. mw next c = X) \<Longrightarrow> Auth (snd X) = Auth c \<Longrightarrow>
   \<exists>res c'. Auth c' = Auth c \<and> (\<forall>next. mw next c = (res, c'))"
  by (cases X) auto

lemma BasicAuth_cases:
  "(\<exists>u p auth. Get c ''Authorization'' = Some auth \<and> HasPrefix auth ''Basic ''
       \<and> DecodeString (drop 6 auth) = Some (u @ CHR '':'' # p) \<and> CHR '':'' \<notin> set u
       \<and> validator u p
       \<and> (\<forall>next. BasicAuth DecodeString validator next c =
              next (SetAuth c \<lparr>Type = ''basic'', Value = [], Username = u, Password = p,
                               Valid = True\<rparr>)))
   \<or> (\<exists>res c'. Auth c' = Auth c
          \<and> (\<forall>next. BasicAuth DecodeString validator next c = (res, c')))"
proof (cases "Get c ''Authorization''")
  case None
  have "\<exists>res c'. Auth c' = Auth c \<and> (\<forall>next. BasicAuth DecodeString validator next c = (res, c'))"
    by (rule blockedI[where X = "(nilDeref, c)"]) (simp_all add: BasicAuth_def None)
  then show ?thesis ..
next
  case (Some auth)
  note g = Some
  show ?thesis
  proof (cases "auth = []")
    case True
    show ?thesis
    proof (cases "Set c ''WWW-Authenticate'' basicChallenge")
      case None
      have "\<exists>res c'. Auth c' = Auth c \<and> (\<forall>next. BasicAuth DecodeString validator next c = (res, c'))"
        by (rule blockedI[where X = "(nilDeref, c)"]) (simp_all add: BasicAuth_def g True None)
      then show ?thesis ..
    next
      case (Some c1)
      have "\<exists>res c'. Auth c' = Auth c \<and> (\<forall>next. BasicAuth DecodeString validator next c = (res, c'))"
        by (rule blockedI[where X = "Unauthorized c1 ''missing authorization header''"])
           (simp_all add: BasicAuth_def g True Some Unauthorized_Auth Set_Auth[OF Some])
      then show ?thesis ..
    qed
  next
    case ne: False
    show ?thesis
    proof (cases "HasPrefix auth ''Basic ''")
      case False
      have "\<exists>res c'. Auth c' = Auth c \<and> (\<forall>next. BasicAuth DecodeString validator next c = (res, c'))"
        by (rule blockedI[where X = "Unauthorized c ''invalid authorization type''"])
           (simp_all add: BasicAuth_def g ne False Unauthorized_Auth)
      then show ?thesis ..
    next
      case pre: True
      show ?thesis
      proof (cases "DecodeString (drop 6 auth)")
        case None
        have "\<exists>res c'. Auth c' = Auth c \<and> (\<forall>next. BasicAuth DecodeString validator next c = (res, c'))"
          by (rule blockedI[where X = "Unauthorized c ''invalid base64 encoding''"])
             (simp_all add: BasicAuth_def g ne pre None Unauthorized_Auth)
        then show ?thesis ..
      next
        case (Some decoded)
        note dec = Some
        show ?thesis
        proof (cases "cutAt CHR '':'' decoded")
          case None
          have "\<exists>res c'. Auth c' = Auth c \<and> (\<forall>next. BasicAuth DecodeString validator next c = (res, c'))"
            by (rule blockedI[where X = "Unauthorized c ''invalid credentials format''"])
               (simp_all add: BasicAuth_def g ne pre dec SplitN_two None Unauthorized_Auth)
          then show ?thesis ..
        next
          case (Some ab)
          obtain u p where ab: "ab = (u, p)" by (cases ab)
          note cut = Some[unfolded ab]
          from cutAt_Some[OF cut] have d: "decoded = u @ CHR '':'' # p" and nu: "CHR '':'' \<notin> set u"
            by simp_all
          show ?thesis
          proof (cases "validator u p")
            case False
            have "\<exists>res c'. Auth c' = Auth c \<and> (\<forall>next. BasicAuth DecodeString validator next c = (res, c'))"
              by (rule blockedI[where X = "Unauthorized c ''invalid credentials''"])
                 (simp_all add: BasicAuth_def g ne pre dec SplitN_two cut False Unauthorized_Auth)
            then show ?thesis ..
          next
            case True
            have "\<forall>next. BasicAuth DecodeString validator next c =
              next (SetAuth c \<lparr>Type = ''basic'', Value = [], Username = u, Password = p,
                               Valid = True\<rparr>)"
              by (simp add: BasicAuth_def g ne pre dec SplitN_two cut True)
            with g pre dec d nu True show ?thesis by blast
          qed
        qed
      qed
    qed
  qed
qed


lemma BearerAuth_cases:
  "(\<exists>auth. Get c ''Authorization'' = Some auth \<and> HasPrefix auth ''Bearer ''
       \<and> validator (drop 7 auth)
       \<and> (\<forall>next. BearerAuth validator next c =
              next (SetAuth c \<lparr>Type = ''bearer'', Value = drop 7 auth, Username = [],
                               Password = [], Valid = True\<rparr>)))
   \<or> (\<exists>res c'. Auth c' = Auth c \<and> (\<forall>next. BearerAuth validator next c = (res, c')))"
proof (cases "Get c ''Authorization''")
  case None
  have "\<exists>res c'. Auth c' = Auth c \<and> (\<forall>next. BearerAuth validator next c = (res, c'))"
    by (rule blockedI[where X = "(nilDeref, c)"]) (simp_all add: BearerAuth_def None)
  then show ?thesis ..
next
  case (Some auth)
  note g = Some
  consider (empty) "auth = []" | (wrong) "auth \<noteq> []" "\<not> HasPrefix auth ''Bearer ''"
    | (bad) "auth \<noteq> []" "HasPrefix auth ''Bearer ''" "\<not> validator (drop 7 auth)"
    | (good) "auth \<noteq> []" "HasPrefix auth ''Bearer ''" "validator (drop 7 auth)"
    by blast
  then show ?thesis
  proof cases
    case empty
    have "\<exists>res c'. Auth c' = Auth c \<and> (\<forall>next. BearerAuth validator next c = (res, c'))"
      by (rule blockedI[where X = "Unauthorized c ''missing authorization header''"])
         (simp_all add: BearerAuth_def g empty Unauthorized_Auth)
    then show ?thesis ..
  next
    case wrong
    have "\<exists>res c'. Auth c' = Auth c \<and> (\<forall>next. BearerAuth validator next c = (res, c'))"
      by (rule blockedI[where X = "Unauthorized c ''invalid authorization type''"])
         (simp_all add: BearerAuth_def g wrong Unauthorized_Auth)
    then show ?thesis ..
  next
    case bad
    have "\<exists>res c'. Auth c' = Auth c \<and> (\<forall>next. BearerAuth validator next c = (res, c'))"
      by (rule blockedI[where X = "Unauthorized c ''invalid token''"])
         (simp_all add: BearerAuth_def g bad Unauthorized_Auth)
    then show ?thesis ..
  next
    case good
    have "\<forall>next. BearerAuth validator next c =
              next (SetAuth c \<lparr>Type = ''bearer'', Value = drop 7 auth, Username = [],
                               Password = [], Valid = True\<rparr>)"
      by (simp add: BearerAuth_def g good)
    with g good show ?thesis by blast
  qed
qed

lemma APIKeyAuth_cases:
  "(\<exists>key. Get c (if headerName = [] then ''X-API-Key'' else headerName) = Some key
       \<and> key \<noteq> [] \<and> validator key
       \<and> (\<forall>next. APIKeyAuth validator headerName next c =
              next (SetAuth c \<lparr>Type = ''apikey'', Value = key, Username = [],
                               Password = [], Valid = True\<rparr>)))
   \<or> (\<exists>res c'. Auth c' = Auth c
         \<and> (\<forall>next. APIKeyAuth validator headerName next c = (res, c')))"
proof (cases "Get c (if headerName = [] then ''X-API-Key'' else headerName)")
  case None
  have "\<exists>res c'. Auth c' = Auth c
         \<and> (\<forall>next. APIKeyAuth validator headerName next c = (res, c'))"
    by (rule blockedI[where X = "(nilDeref, c)"]) (simp_all add: APIKeyAuth_def None)
  then show ?thesis ..
next
  case (Some key)
  note g = Some
  consider (empty) "key = []" | (bad) "key \<noteq> []" "\<not> validator key"
    | (good) "key \<noteq> []" "validator key"
    by blast
  then show ?thesis
  proof cases
    case empty
    have "\<exists>res c'. Auth c' = Auth c
         \<and> (\<forall>next. APIKeyAuth validator headerName next c = (res, c'))"
      by (rule blockedI[where X = "Unauthorized c ''missing API key''"])
         (simp_all add: APIKeyAuth_def g empty Unauthorized_Auth)
    then show ?thesis ..
  next
    case bad
    have "\<exists>res c'. Auth c' = Auth c
         \<and> (\<forall>next. APIKeyAuth validator headerName next c = (res, c'))"
      by (rule blockedI[where X = "Unauthorized c ''invalid API key''"])
         (simp_all add: APIKeyAuth_def g bad Unauthorized_Auth)
    then show ?thesis ..
  next
    case good
    have "\<forall>next. APIKeyAuth validator headerName next c =
              next (SetAuth c \<lparr>Type = ''apikey'', Value = key, Username = [],
                               Password = [], Valid = True\<rparr>)"
      by (simp add: APIKeyAuth_def g good)
    with g good show ?thesis by blast
  qed
qed


lemma Auth_combined_apikey:
  assumes "Get c ''Authorization'' = Some auth" and "Get c (APIKeyName config) = Some apiKey"
    and "apiKey \<noteq> []" and "APIKeyValidator config = Some v"
  shows "Auth_combined D config next c =
     (if v apiKey then
        next (SetAuth c \<lparr>Type = ''apikey'', Value = apiKey, Username = [], Password = [],
                         Valid = True\<rparr>)
      else Unauthorized c ''invalid API key'')"
  using assms by (simp add: Auth_combined_def)

lemma Auth_combined_missing:
  assumes "Get c ''Authorization'' = Some []" and "Get c (APIKeyName config) = Some apiKey"
    and "\<not> (apiKey \<noteq> [] \<and> APIKeyValidator config \<noteq> None)"
  shows "Auth_combined D config next c =
     (case Set c ''WWW-Authenticate'' basicChallenge of
        None \<Rightarrow> (nilDeref, c)
      | Some c' \<Rightarrow> Unauthorized c' ''missing authorization'')"
proof -
  from assms(3) have "(if apiKey \<noteq> [] then APIKeyValidator config else None) = None"
    by auto
  with assms(1,2) show ?thesis
    by (simp add: Auth_combined_def)
qed

lemma Auth_combined_bearer:
  assumes "Get c ''Authorization'' = Some auth" and "Get c (APIKeyName config) = Some apiKey"
    and "\<not> (apiKey \<noteq> [] \<and> APIKeyValidator config \<noteq> None)"
    and "HasPrefix auth ''Bearer ''" and "BearerValidator config = Some v"
  shows "Auth_combined D config next c =
     (if v (drop 7 auth) then
        next (SetAuth c \<lparr>Type = ''bearer'', Value = drop 7 auth, Username = [], Password = [],
                         Valid = True\<rparr>)
      else Unauthorized c ''invalid token'')"
proof -
  from assms(3) have k: "(if apiKey \<noteq> [] then APIKeyValidator config else None) = None"
    by auto
  from assms(4) have ne: "auth \<noteq> []" by (auto simp: HasPrefix_def)
  from assms(1,2,4,5) k ne show ?thesis
    by (simp add: Auth_combined_def)
qed

lemma Auth_combined_basic:
  assumes "Get c ''Authorization'' = Some auth" and "Get c (APIKeyName config) = Some apiKey"
    and "\<not> (apiKey \<noteq> [] \<and> APIKeyValidator config \<noteq> None)"
    and "\<not> (HasPrefix auth ''Bearer '' \<and> BearerValidator config \<noteq> None)"
    and "HasPrefix auth ''Basic ''" and "BasicValidator config = Some v"
  shows "Auth_combined D config next c =
     (case D (drop 6 auth) of
        None \<Rightarrow> Unauthorized c ''invalid base64 encoding''
      | Some decoded \<Rightarrow>
          (case cutAt CHR '':'' decoded of
             None \<Rightarrow> Unauthorized c ''invalid credentials format''
           | Some (u, p) \<Rightarrow>
               if v u p then
                 next (SetAuth c \<lparr>Type = ''basic'', Value = [], Username = u, Password = p,
                                  Valid = True\<rparr>)
               else Unauthorized c ''invalid credentials''))"
proof -
  from assms(3) have k: "(if apiKey \<noteq> [] then APIKeyValidator config else None) = None"
    by auto
  from assms(4) have b: "(if HasPrefix auth ''Bearer '' then BearerValidator config else None) = None"
    by auto
  from assms(5) have ne: "auth \<noteq> []" by (auto simp: HasPrefix_def)
  from assms(1,2,5,6) k b ne show ?thesis
    by (simp add: Auth_combined_def SplitN_two split: option.splits)
qed

lemma Auth_combined_none:
  assumes "Get c ''Authorization'' = Some auth" and "Get c (APIKeyName config) = Some apiKey"
    and "\<not> (apiKey \<noteq> [] \<and> APIKeyValidator config \<noteq> None)"
    and "\<not> (HasPrefix auth ''Bearer '' \<and> BearerValidator config \<noteq> None)"
    and "\<not> (HasPrefix auth ''Basic '' \<and> BasicValidator config \<noteq> None)"
    and "auth \<noteq> []"
  shows "Auth_combined D config next c = Unauthorized c ''invalid authorization''"
proof -
  from assms(3) have k: "(if apiKey \<noteq> [] then APIKeyValidator config else None) = None"
    by auto
  from assms(4) have b: "(if HasPrefix auth ''Bearer '' then BearerValidator config else None) = None"
    by auto
  from assms(5) have a: "(if HasPrefix auth ''Basic '' then BasicValidator config else None) = None"
    by auto
  from assms(1,2,6) k b a show ?thesis
    by (simp add: Auth_combined_def)
qed

lemma Get_Some: "RequestCtx c = Some f \<Longrightarrow> Get c key = Some (reqHeader f key)"
  by (simp add: Get_def)

lemma Unauthorized_401:
  "RequestCtx c = Some f \<Longrightarrow>
   \<exists>c' f'. Unauthorized c msg = (NilErr, c') \<and> RequestCtx c' = Some f'
     \<and> statusCode (Response f') = 401 \<and> body (Response f') = JSONBody [(''error'', msg)]
     \<and> Auth c' = Auth c"
  by (simp add: Unauthorized_def JSON_def withResponse_def StatusUnauthorized_def)

lemma Set_Some:
  "RequestCtx c = Some f \<Longrightarrow> \<exists>c' f'. Set c k v = Some c' \<and> RequestCtx c' = Some f'
     \<and> Auth c' = Auth c \<and> respHeader (Response f') k = Some v"
  by (simp add: Set_def withResponse_def)


lemma Auth_combined_branches:
  assumes ctx: "RequestCtx c = Some f"
    and auth: "auth = reqHeader f ''Authorization''"
    and apiKey: "apiKey = reqHeader f (APIKeyName config)"
  shows
    "(\<forall>v. apiKey \<noteq> [] \<and> APIKeyValidator config = Some v \<longrightarrow>
        (\<forall>next. Auth_combined D config next c =
           (if v apiKey then
              next (SetAuth c \<lparr>Type = ''apikey'', Value = apiKey, Username = [],
                               Password = [], Valid = True\<rparr>)
            else Unauthorized c ''invalid API key'')))
   \<and> (\<not> (apiKey \<noteq> [] \<and> APIKeyValidator config \<noteq> None) \<longrightarrow>
        (\<forall>v. HasPrefix auth ''Bearer '' \<and> BearerValidator config = Some v \<longrightarrow>
           (\<forall>next. Auth_combined D config next c =
              (if v (drop 7 auth) then
                 next (SetAuth c \<lparr>Type = ''bearer'', Value = drop 7 auth, Username = [],
                                  Password = [], Valid = True\<rparr>)
               else Unauthorized c ''invalid token''))))
   \<and> (\<not> (apiKey \<noteq> [] \<and> APIKeyValidator config \<noteq> None) \<and>
       \<not> (HasPrefix auth ''Bearer '' \<and> BearerValidator config \<noteq> None) \<longrightarrow>
        (\<forall>v. HasPrefix auth ''Basic '' \<and> BasicValidator config = Some v \<longrightarrow>
           (\<forall>next. Auth_combined D config next c =
              (case D (drop 6 auth) of
                 None \<Rightarrow> Unauthorized c ''invalid base64 encoding''
               | Some decoded \<Rightarrow>
                   (case cutAt CHR '':'' decoded of
                      None \<Rightarrow> Unauthorized c ''invalid credentials format''
                    | Some (u, p) \<Rightarrow>
                        if v u p then
                          next (SetAuth c \<lparr>Type = ''basic'', Value = [], Username = u,
                                           Password = p, Valid = True\<rparr>)
                        else Unauthorized c ''invalid credentials'')))))
   \<and> (\<not> (apiKey \<noteq> [] \<and> APIKeyValidator config \<noteq> None) \<and>
       \<not> (HasPrefix auth ''Bearer '' \<and> BearerValidator config \<noteq> None) \<and>
       \<not> (HasPrefix auth ''Basic '' \<and> BasicValidator config \<noteq> None) \<longrightarrow>
        (\<exists>c' f'. (\<forall>next. Auth_combined D config next c = (NilErr, c'))
            \<and> RequestCtx c' = Some f' \<and> statusCode (Response f') = 401
            \<and> Auth c' = Auth c))
   \<and> (\<forall>msg. \<exists>c' f'. Unauthorized c msg = (NilErr, c') \<and> RequestCtx c' = Some f'
            \<and> statusCode (Response f') = 401 \<and> Auth c' = Auth c)"
proof -
  have ga: "Get c ''Authorization'' = Some auth"
    and gk: "Get c (APIKeyName config) = Some apiKey"
    using ctx auth apiKey by (simp_all add: Get_def)
  have u401: "\<exists>c' f'. Unauthorized c msg = (NilErr, c') \<and> RequestCtx c' = Some f'
            \<and> statusCode (Response f') = 401 \<and> Auth c' = Auth c" for msg
    using Unauthorized_401[OF ctx, of msg] by blast
  have one: "\<forall>v. apiKey \<noteq> [] \<and> APIKeyValidator config = Some v \<longrightarrow>
        (\<forall>next. Auth_combined D config next c =
           (if v apiKey then
              next (SetAuth c \<lparr>Type = ''apikey'', Value = apiKey, Username = [],
                               Password = [], Valid = True\<rparr>)
            else Unauthorized c ''invalid API key''))"
    using Auth_combined_apikey[OF ga gk] by blast
  have two: "\<not> (apiKey \<noteq> [] \<and> APIKeyValidator config \<noteq> None) \<longrightarrow>
        (\<forall>v. HasPrefix auth ''Bearer '' \<and> BearerValidator config = Some v \<longrightarrow>
           (\<forall>next. Auth_combined D config next c =
              (if v (drop 7 auth) then
                 next (SetAuth c \<lparr>Type = ''bearer'', Value = drop 7 auth, Username = [],
                                  Password = [], Valid = True\<rparr>)
               else Unauthorized c ''invalid token'')))"
    using Auth_combined_bearer[OF ga gk] by blast
  have three: "\<not> (apiKey \<noteq> [] \<and> APIKeyValidator config \<noteq> None) \<and>
       \<not> (HasPrefix auth ''Bearer '' \<and> BearerValidator config \<noteq> None) \<longrightarrow>
        (\<forall>v. HasPrefix auth ''Basic '' \<and> BasicValidator config = Some v \<longrightarrow>
           (\<forall>next. Auth_combined D config next c =
              (case D (drop 6 auth) of
                 None \<Rightarrow> Unauthorized c ''invalid base64 encoding''
               | Some decoded \<Rightarrow>
                   (case cutAt CHR '':'' decoded of
                      None \<Rightarrow> Unauthorized c ''invalid credentials format''
                    | Some (u, p) \<Rightarrow>
                        if v u p then
                          next (SetAuth c \<lparr>Type = ''basic'', Value = [], Username = u,
                                           Password = p, Valid = True\<rparr>)
                        else Unauthorized c ''invalid credentials''))))"
    using Auth_combined_basic[OF ga gk] by blast
  have four: "\<exists>c' f'. (\<forall>next. Auth_combined D config next c = (NilErr, c'))
            \<and> RequestCtx c' = Some f' \<and> statusCode (Response f') = 401
            \<and> Auth c' = Auth c"
    if na: "\<not> (apiKey \<noteq> [] \<and> APIKeyValidator config \<noteq> None)"
      and nb: "\<not> (HasPrefix auth ''Bearer '' \<and> BearerValidator config \<noteq> None)"
      and nc: "\<not> (HasPrefix auth ''Basic '' \<and> BasicValidator config \<noteq> None)"
  proof (cases "auth = []")
    case True
    from Set_Some[OF ctx, of "''WWW-Authenticate''" basicChallenge]
    obtain c1 f1 where s: "Set c ''WWW-Authenticate'' basicChallenge = Some c1"
      and c1: "RequestCtx c1 = Some f1" and a1: "Auth c1 = Auth c"
      by blast
    have run: "Auth_combined D config nxt c = Unauthorized c1 ''missing authorization''" for nxt
      using Auth_combined_missing[OF ga[unfolded True] gk na] s by simp
    from Unauthorized_401[OF c1, of "''missing authorization''"]
    obtain c2 f2 where "Unauthorized c1 ''missing authorization'' = (NilErr, c2)"
      and "RequestCtx c2 = Some f2" and "statusCode (Response f2) = 401"
      and "Auth c2 = Auth c1"
      by blast
    with run a1 show ?thesis by (intro exI[of _ c2] exI[of _ f2]) simp
  next
    case False
    have run: "Auth_combined D config nxt c = Unauthorized c ''invalid authorization''" for nxt
      using Auth_combined_none[OF ga gk na nb nc False] .
    from u401[of "''invalid authorization''"]
    obtain c2 f2 where "Unauthorized c ''invalid authorization'' = (NilErr, c2)"
      and "RequestCtx c2 = Some f2" and "statusCode (Response f2) = 401"
      and "Auth c2 = Auth c"
      by blast
    with run show ?thesis by (intro exI[of _ c2] exI[of _ f2]) simp
  qed
  from one two three four u401 show ?thesis by (intro conjI impI allI) blast+
qed

lemma Auth_combined_nil:
  "RequestCtx c = None \<Longrightarrow> Auth_combined D config nxt c = (nilDeref, c)"
  by (simp add: Auth_combined_def Get_def)

text \<open>
  Claim C4. The combined middleware tries its branches in the order API key, Bearer,
  Basic. For a context with a request attached (\<open>auth\<close> the \<open>Authorization\<close> header,
  \<open>apiKey\<close> the header named by the configuration): when the API-key header is
  non-empty and an API-key validator is configured, that validator alone decides:
  acceptance attaches an \<open>apikey\<close> auth result and calls the inner handler, rejection
  answers 401, whatever the \<open>Authorization\<close> header and the other validators are.
  Otherwise the Bearer branch decides when \<open>Authorization\<close> starts with \<open>Bearer \<close> and
  a bearer validator is configured; otherwise the Basic branch decides when it starts
  with \<open>Basic \<close> and a basic validator is configured; and when no branch applies the
  answer is 401 and the inner handler is not called. Every \<open>Unauthorized\<close> answer is
  a 401 response that leaves the context's auth result as it was. (A context with no
  request attached makes the first header lookup panic.)
\<close>

theorem Auth_combined_priority:
  "(RequestCtx c = None \<longrightarrow> (\<forall>next. Auth_combined D config next c = (nilDeref, c)))
   \<and> (\<forall>f. RequestCtx c = Some f \<longrightarrow>
     (let auth = reqHeader f ''Authorization''; apiKey = reqHeader f (APIKeyName config) in
      (\<forall>v. apiKey \<noteq> [] \<and> APIKeyValidator config = Some v \<longrightarrow>
        (\<forall>next. Auth_combined D config next c =
           (if v apiKey then
              next (SetAuth c \<lparr>Type = ''apikey'', Value = apiKey, Username = [],
                               Password = [], Valid = True\<rparr>)
            else Unauthorized c ''invalid API key'')))
   \<and> (\<not> (apiKey \<noteq> [] \<and> APIKeyValidator config \<noteq> None) \<longrightarrow>
        (\<forall>v. HasPrefix auth ''Bearer '' \<and> BearerValidator config = Some v \<longrightarrow>
           (\<forall>next. Auth_combined D config next c =
              (if v (drop 7 auth) then
                 next (SetAuth c \<lparr>Type = ''bearer'', Value = drop 7 auth, Username = [],
                                  Password = [], Valid = True\<rparr>)
               else Unauthorized c ''invalid token''))))
   \<and> (\<not> (apiKey \<noteq> [] \<and> APIKeyValidator config \<noteq> None) \<and>
       \<not> (HasPrefix auth ''Bearer '' \<and> BearerValidator config \<noteq> None) \<longrightarrow>
        (\<forall>v. HasPrefix auth ''Basic '' \<and> BasicValidator config = Some v \<longrightarrow>
           (\<forall>next. Auth_combined D config next c =
              (case D (drop 6 auth) of
                 None \<Rightarrow> Unauthorized c ''invalid base64 encoding''
               | Some decoded \<Rightarrow>
                   (case cutAt CHR '':'' decoded of
                      None \<Rightarrow> Unauthorized c ''invalid credentials format''
                    | Some (u, p) \<Rightarrow>
                        if v u p then
                          next (SetAuth c \<lparr>Type = ''basic'', Value = [], Username = u,
                                           Password = p, Valid = True\<rparr>)
                        else Unauthorized c ''invalid credentials'')))))
   \<and> (\<not> (apiKey \<noteq> [] \<and> APIKeyValidator config \<noteq> None) \<and>
       \<not> (HasPrefix auth ''Bearer '' \<and> BearerValidator config \<noteq> None) \<and>
       \<not> (HasPrefix auth ''Basic '' \<and> BasicValidator config \<noteq> None) \<longrightarrow>
        (\<exists>c' f'. (\<forall>next. Auth_combined D config next c = (NilErr, c'))
            \<and> RequestCtx c' = Some f' \<and> statusCode (Response f') = 401
            \<and> Auth c' = Auth c))
   \<and> (\<forall>msg. \<exists>c' f'. Unauthorized c msg = (NilErr, c') \<and> RequestCtx c' = Some f'
            \<and> statusCode (Response f') = 401 \<and> Auth c' = Auth c)))"
proof (intro conjI allI impI)
  fix nxt assume "RequestCtx c = None"
  then show "Auth_combined D config nxt c = (nilDeref, c)" by (rule Auth_combined_nil)
next
  fix f assume "RequestCtx c = Some f"
  from Auth_combined_branches[OF this refl refl, of config D]
  show "let auth = reqHeader f ''Authorization''; apiKey = reqHeader f (APIKeyName config) in
      (\<forall>v. apiKey \<noteq> [] \<and> APIKeyValidator config = Some v \<longrightarrow>
        (\<forall>next. Auth_combined D config next c =
           (if v apiKey then
              next (SetAuth c \<lparr>Type = ''apikey'', Value = apiKey, Username = [],
                               Password = [], Valid = True\<rparr>)
            else Unauthorized c ''invalid API key'')))
   \<and> (\<not> (apiKey \<noteq> [] \<and> APIKeyValidator config \<noteq> None) \<longrightarrow>
        (\<forall>v. HasPrefix auth ''Bearer '' \<and> BearerValidator config = Some v \<longrightarrow>
           (\<forall>next. Auth_combined D config next c =
              (if v (drop 7 auth) then
                 next (SetAuth c \<lparr>Type = ''bearer'', Value = drop 7 auth, Username = [],
                                  Password = [], Valid = True\<rparr>)
               else Unauthorized c ''invalid token''))))
   \<and> (\<not> (apiKey \<noteq> [] \<and> APIKeyValidator config \<noteq> None) \<and>
       \<not> (HasPrefix auth ''Bearer '' \<and> BearerValidator config \<noteq> None) \<longrightarrow>
        (\<forall>v. HasPrefix auth ''Basic '' \<and> BasicValidator config = Some v \<longrightarrow>
           (\<forall>next. Auth_combined D config next c =
              (case D (drop 6 auth) of
                 None \<Rightarrow> Unauthorized c ''invalid base64 encoding''
               | Some decoded \<Rightarrow>
                   (case cutAt CHR '':'' decoded of
                      None \<Rightarrow> Unauthorized c ''invalid credentials format''
                    | Some (u, p) \<Rightarrow>
                        if v u p then
                          next (SetAuth c \<lparr>Type = ''basic'', Value = [], Username = u,
                                           Password = p, Valid = True\<rparr>)
                        else Unauthorized c ''invalid credentials'')))))
   \<and> (\<not> (apiKey \<noteq> [] \<and> APIKeyValidator config \<noteq> None) \<and>
       \<not> (HasPrefix auth ''Bearer '' \<and> BearerValidator config \<noteq> None) \<and>
       \<not> (HasPrefix auth ''Basic '' \<and> BasicValidator config \<noteq> None) \<longrightarrow>
        (\<exists>c' f'. (\<forall>next. Auth_combined D config next c = (NilErr, c'))
            \<and> RequestCtx c' = Some f' \<and> statusCode (Response f') = 401
            \<and> Auth c' = Auth c))
   \<and> (\<forall>msg. \<exists>c' f'. Unauthorized c msg = (NilErr, c') \<and> RequestCtx c' = Some f'
            \<and> statusCode (Response f') = 401 \<and> Auth c' = Auth c)"
    unfolding Let_def .
qed

theorem Auth_combined_priority_witness:
  "(let f = \<lparr>reqMethod = ''GET'', reqPath = ''/p'',
             reqHeader = (\<lambda>k. if k = ''X-API-Key'' then ''bad''
                              else if k = ''Authorization'' then ''Bearer tok'' else []),
             Response = \<lparr>statusCode = 0, contentType = [], respHeader = Map.empty,
                         body = NoBody\<rparr>\<rparr>;
        c = \<lparr>RequestCtx = Some f, Params = Map.empty, Locals = (Map.empty :: string \<rightharpoonup> unit),
             Logger = None, Auth = None\<rparr>;
        both = \<lparr>BasicValidator = None, BearerValidator = Some (\<lambda>t. t = ''tok''),
                APIKeyValidator = Some (\<lambda>k. k = ''k1''), APIKeyName = ''X-API-Key''\<rparr>;
        bearerOnly = \<lparr>BasicValidator = None, BearerValidator = Some (\<lambda>t. t = ''tok''),
                APIKeyValidator = None, APIKeyName = ''X-API-Key''\<rparr>;
        inner = (\<lambda>c. (Err ''inner handler ran'', c))
    in Auth_combined (\<lambda>s. None) both inner c = Unauthorized c ''invalid API key''
       \<and> Auth_combined (\<lambda>s. None) bearerOnly inner c =
           (Err ''inner handler ran'',
            c\<lparr>Auth := Some \<lparr>Type = ''bearer'', Value = ''tok'', Username = [], Password = [],
                              Valid = True\<rparr>\<rparr>))"
proof -
  let ?f = "\<lparr>reqMethod = ''GET'', reqPath = ''/p'',
             reqHeader = (\<lambda>k. if k = ''X-API-Key'' then ''bad''
                              else if k = ''Authorization'' then ''Bearer tok'' else []),
             Response = \<lparr>statusCode = 0, contentType = [], respHeader = Map.empty,
                         body = NoBody\<rparr>\<rparr>"
  let ?c = "\<lparr>RequestCtx = Some ?f, Params = Map.empty, Locals = (Map.empty :: string \<rightharpoonup> unit),
             Logger = None, Auth = None\<rparr>"
  let ?both = "\<lparr>BasicValidator = None, BearerValidator = Some (\<lambda>t. t = ''tok''),
                APIKeyValidator = Some (\<lambda>k. k = ''k1''), APIKeyName = ''X-API-Key''\<rparr>"
  let ?bearerOnly = "\<lparr>BasicValidator = None, BearerValidator = Some (\<lambda>t. t = ''tok''),
                APIKeyValidator = None, APIKeyName = ''X-API-Key''\<rparr>"
  let ?inner = "(\<lambda>c. (Err ''inner handler ran'', c)) :: (unit Ctx) Handler"
  have ctx: "RequestCtx ?c = Some ?f" by simp
  have hk: "reqHeader ?f ''X-API-Key'' = ''bad''"
    and ha: "reqHeader ?f ''Authorization'' = ''Bearer tok''"
    by simp_all
  have pre: "HasPrefix ''Bearer tok'' ''Bearer ''" by (simp add: HasPrefix_def)
  note t1 = Auth_combined_priority[of ?c "\<lambda>s. None" ?both, THEN conjunct2, rule_format,
      OF ctx, unfolded Let_def, THEN conjunct1, rule_format, of "\<lambda>k. k = ''k1''" ?inner]
  have r1: "Auth_combined (\<lambda>s. None) ?both ?inner ?c = Unauthorized ?c ''invalid API key''"
    using t1 by (simp add: hk)
  note t2 = Auth_combined_priority[of ?c "\<lambda>s. None" ?bearerOnly, THEN conjunct2, rule_format,
      OF ctx, unfolded Let_def, THEN conjunct2, THEN conjunct1, rule_format,
      of "\<lambda>t. t = ''tok''" ?inner]
  have r2: "Auth_combined (\<lambda>s. None) ?bearerOnly ?inner ?c =
           (Err ''inner handler ran'',
            ?c\<lparr>Auth := Some \<lparr>Type = ''bearer'', Value = ''tok'', Username = [], Password = [],
                              Valid = True\<rparr>\<rparr>)"
    using t2 pre by (simp add: ha SetAuth_def)
  show ?thesis
    unfolding Let_def using r1 r2 by (rule conjI)
qed

lemma Auth_combined_cases:
  "(\<exists>ai. (\<forall>next. Auth_combined D config next c = next (SetAuth c ai))
       \<and> ((\<exists>key. key \<noteq> [] \<and> APIKeyValidator config \<noteq> None
               \<and> ai = \<lparr>Type = ''apikey'', Value = key, Username = [], Password = [],
                        Valid = True\<rparr>)
          \<or> (\<exists>token. BearerValidator config \<noteq> None
               \<and> ai = \<lparr>Type = ''bearer'', Value = token, Username = [], Password = [],
                        Valid = True\<rparr>)
          \<or> (\<exists>u p auth. Get c ''Authorization'' = Some auth
               \<and> D (drop 6 auth) = Some (u @ CHR '':'' # p) \<and> CHR '':'' \<notin> set u
               \<and> BasicValidator config \<noteq> None
               \<and> ai = \<lparr>Type = ''basic'', Value = [], Username = u, Password = p,
                        Valid = True\<rparr>)))
   \<or> (\<exists>res c'. Auth c' = Auth c \<and> (\<forall>next. Auth_combined D config next c = (res, c')))"
  (is "?ok \<or> ?blocked")
proof (cases "RequestCtx c")
  case None
  have ?blocked
    by (rule blockedI[where X = "(nilDeref, c)"]) (simp_all add: Auth_combined_nil[OF None])
  then show ?thesis ..
next
  case (Some f)
  define auth where "auth = reqHeader f ''Authorization''"
  define apiKey where "apiKey = reqHeader f (APIKeyName config)"
  have ga: "Get c ''Authorization'' = Some auth"
    and gk: "Get c (APIKeyName config) = Some apiKey"
    using Some by (simp_all add: Get_def auth_def apiKey_def)
  show ?thesis
  proof (cases "apiKey \<noteq> [] \<and> APIKeyValidator config \<noteq> None")
    case True
    then obtain v where ne: "apiKey \<noteq> []" and v: "APIKeyValidator config = Some v" by auto
    note run = Auth_combined_apikey[OF ga gk ne v, of D]
    show ?thesis
    proof (cases "v apiKey")
      case True
      have "\<forall>next. Auth_combined D config next c =
          next (SetAuth c \<lparr>Type = ''apikey'', Value = apiKey, Username = [], Password = [],
                           Valid = True\<rparr>)"
        using run True by simp
      with ne v have ?ok by blast
      then show ?thesis ..
    next
      case False
      have ?blocked
        by (rule blockedI[where X = "Unauthorized c ''invalid API key''"])
           (simp_all add: run False Unauthorized_Auth)
      then show ?thesis ..
    qed
  next
    case na: False
    show ?thesis
    proof (cases "auth = []")
      case True
      note run = Auth_combined_missing[OF ga[unfolded True] gk na, of D]
      have "Auth (snd (case Set c ''WWW-Authenticate'' basicChallenge of
                None \<Rightarrow> (nilDeref, c)
              | Some c' \<Rightarrow> Unauthorized c' ''missing authorization'')) = Auth c"
        by (auto split: option.splits simp: Unauthorized_Auth dest: Set_Auth)
      then have ?blocked
        by (rule blockedI[where X = "case Set c ''WWW-Authenticate'' basicChallenge of
                None \<Rightarrow> (nilDeref, c)
              | Some c' \<Rightarrow> Unauthorized c' ''missing authorization''", rotated])
           (rule run)
      then show ?thesis ..
    next
      case ne: False
      show ?thesis
      proof (cases "HasPrefix auth ''Bearer '' \<and> BearerValidator config \<noteq> None")
        case True
        then obtain v where pre: "HasPrefix auth ''Bearer ''" and v: "BearerValidator config = Some v"
          by auto
        note run = Auth_combined_bearer[OF ga gk na pre v, of D]
        show ?thesis
        proof (cases "v (drop 7 auth)")
          case True
          have "\<forall>next. Auth_combined D config next c =
              next (SetAuth c \<lparr>Type = ''bearer'', Value = drop 7 auth, Username = [],
                               Password = [], Valid = True\<rparr>)"
            using run True by simp
          with v have ?ok by blast
          then show ?thesis ..
        next
          case False
          have ?blocked
            by (rule blockedI[where X = "Unauthorized c ''invalid token''"])
               (simp_all add: run False Unauthorized_Auth)
          then show ?thesis ..
        qed
      next
        case nb: False
        show ?thesis
        proof (cases "HasPrefix auth ''Basic '' \<and> BasicValidator config \<noteq> None")
          case False
          note run = Auth_combined_none[OF ga gk na nb False ne, of D]
          have ?blocked
            by (rule blockedI[where X = "Unauthorized c ''invalid authorization''"])
               (simp_all add: run Unauthorized_Auth)
          then show ?thesis ..
        next
          case True
          then obtain v where pre: "HasPrefix auth ''Basic ''" and v: "BasicValidator config = Some v"
            by auto
          note run = Auth_combined_basic[OF ga gk na nb pre v, of D]
          show ?thesis
          proof (cases "D (drop 6 auth)")
            case None
            have ?blocked
              by (rule blockedI[where X = "Unauthorized c ''invalid base64 encoding''"])
                 (simp_all add: run None Unauthorized_Auth)
            then show ?thesis ..
          next
            case (Some decoded)
            note dec = Some
            show ?thesis
            proof (cases "cutAt CHR '':'' decoded")
              case None
              have ?blocked
                by (rule blockedI[where X = "Unauthorized c ''invalid credentials format''"])
                   (simp_all add: run dec None Unauthorized_Auth)
              then show ?thesis ..
            next
              case (Some up)
              obtain u p where up: "up = (u, p)" by (cases up)
              note cut = Some[unfolded up]
              from cutAt_Some[OF cut] have d: "decoded = u @ CHR '':'' # p"
                and nu: "CHR '':'' \<notin> set u"
                by simp_all
              show ?thesis
              proof (cases "v u p")
                case False
                have ?blocked
                  by (rule blockedI[where X = "Unauthorized c ''invalid credentials''"])
                     (simp_all add: run dec cut False Unauthorized_Auth)
                then show ?thesis ..
              next
                case True
                have "\<forall>next. Auth_combined D config next c =
                    next (SetAuth c \<lparr>Type = ''basic'', Value = [], Username = u, Password = p,
                                     Valid = True\<rparr>)"
                  using run dec cut True by simp
                moreover have "D (drop 6 auth) = Some (u @ CHR '':'' # p)"
                  using dec d by simp
                ultimately have ?ok using ga nu v by blast
                then show ?thesis ..
              qed
            qed
          qed
        qed
      qed
    qed
  qed
qed

text \<open>
  Claim C10. For each auth middleware and every context, one of two things happens.
  Either the inner handler is called, and then it is called on the context with an
  auth result attached whose \<open>Valid\<close> flag is true and whose \<open>Type\<close> is the scheme of
  the branch taken (\<open>basic\<close>, \<open>bearer\<close> or \<open>apikey\<close>); for the basic scheme, standalone
  and in the combined middleware, the attached result holds the user name and the
  plaintext password decoded from the header. Or the outcome does not depend on the
  inner handler at all (it is not called) and the auth result of the context is left
  as it was. No branch attaches an auth result with \<open>Valid\<close> false.
\<close>

theorem auth_attaches_valid_info:
  "((\<exists>u p auth. Get c ''Authorization'' = Some auth \<and> HasPrefix auth ''Basic ''
         \<and> D (drop 6 auth) = Some (u @ CHR '':'' # p) \<and> CHR '':'' \<notin> set u
         \<and> vb u p
         \<and> (\<forall>next. BasicAuth D vb next c =
                next (SetAuth c \<lparr>Type = ''basic'', Value = [], Username = u, Password = p,
                                 Valid = True\<rparr>)))
     \<or> (\<exists>res c'. Auth c' = Auth c \<and> (\<forall>next. BasicAuth D vb next c = (res, c'))))
   \<and> ((\<exists>auth. Get c ''Authorization'' = Some auth \<and> HasPrefix auth ''Bearer ''
         \<and> vt (drop 7 auth)
         \<and> (\<forall>next. BearerAuth vt next c =
                next (SetAuth c \<lparr>Type = ''bearer'', Value = drop 7 auth, Username = [],
                                 Password = [], Valid = True\<rparr>)))
     \<or> (\<exists>res c'. Auth c' = Auth c \<and> (\<forall>next. BearerAuth vt next c = (res, c'))))
   \<and> ((\<exists>key. Get c (if headerName = [] then ''X-API-Key'' else headerName) = Some key
         \<and> key \<noteq> [] \<and> vk key
         \<and> (\<forall>next. APIKeyAuth vk headerName next c =
                next (SetAuth c \<lparr>Type = ''apikey'', Value = key, Username = [],
                                 Password = [], Valid = True\<rparr>)))
     \<or> (\<exists>res c'. Auth c' = Auth c
           \<and> (\<forall>next. APIKeyAuth vk headerName next c = (res, c'))))
   \<and> ((\<exists>ai. (\<forall>next. Auth_combined D config next c = next (SetAuth c ai))
         \<and> ((\<exists>key. key \<noteq> [] \<and> APIKeyValidator config \<noteq> None
                 \<and> ai = \<lparr>Type = ''apikey'', Value = key, Username = [], Password = [],
                          Valid = True\<rparr>)
            \<or> (\<exists>token. BearerValidator config \<noteq> None
                 \<and> ai = \<lparr>Type = ''bearer'', Value = token, Username = [], Password = [],
                          Valid = True\<rparr>)
            \<or> (\<exists>u p auth. Get c ''Authorization'' = Some auth
                 \<and> D (drop 6 auth) = Some (u @ CHR '':'' # p) \<and> CHR '':'' \<notin> set u
                 \<and> BasicValidator config \<noteq> None
                 \<and> ai = \<lparr>Type = ''basic'', Value = [], Username = u, Password = p,
                          Valid = True\<rparr>)))
     \<or> (\<exists>res c'. Auth c' = Auth c \<and> (\<forall>next. Auth_combined D config next c = (res, c'))))"
  by (intro conjI BasicAuth_cases BearerAuth_cases APIKeyAuth_cases Auth_combined_cases)

theorem auth_attaches_valid_info_witness:
  "(let D = (\<lambda>s. if s = ''YWRtaW46c2VjcmV0'' then Some ''admin:secret'' else None);
        vb = (\<lambda>u p. u = ''admin'' \<and> p = ''secret'');
        f = \<lparr>reqMethod = ''GET'', reqPath = ''/p'',
             reqHeader = (\<lambda>k. if k = ''Authorization'' then ''Basic YWRtaW46c2VjcmV0'' else []),
             Response = \<lparr>statusCode = 0, contentType = [], respHeader = Map.empty,
                         body = NoBody\<rparr>\<rparr>;
        c = \<lparr>RequestCtx = Some f, Params = Map.empty, Locals = (Map.empty :: string \<rightharpoonup> unit),
             Logger = None, Auth = None\<rparr>
    in BasicAuth D vb (\<lambda>c. (NilErr, c)) c =
         (NilErr, c\<lparr>Auth := Some \<lparr>Type = ''basic'', Value = [], Username = ''admin'',
                                    Password = ''secret'', Valid = True\<rparr>\<rparr>)
       \<and> (\<exists>c' f'. BasicAuth D vb (\<lambda>c. (NilErr, c)) (c\<lparr>RequestCtx := Some (f\<lparr>reqHeader := \<lambda>k. []\<rparr>)\<rparr>)
              = (NilErr, c') \<and> RequestCtx c' = Some f' \<and> statusCode (Response f') = 401
              \<and> respHeader (Response f') ''WWW-Authenticate'' = Some basicChallenge
              \<and> Auth c' = None))"
proof -
  let ?D = "\<lambda>s. if s = ''YWRtaW46c2VjcmV0'' then Some ''admin:secret'' else None"
  let ?vb = "\<lambda>u p. u = ''admin'' \<and> p = ''secret''"
  let ?f = "\<lparr>reqMethod = ''GET'', reqPath = ''/p'',
             reqHeader = (\<lambda>k. if k = ''Authorization'' then ''Basic YWRtaW46c2VjcmV0'' else []),
             Response = \<lparr>statusCode = 0, contentType = [], respHeader = Map.empty,
                         body = NoBody\<rparr>\<rparr>"
  let ?c = "\<lparr>RequestCtx = Some ?f, Params = Map.empty, Locals = (Map.empty :: string \<rightharpoonup> unit),
             Logger = None, Auth = None\<rparr>"
  let ?id = "(\<lambda>c. (NilErr, c)) :: (unit Ctx) Handler"
  have g: "Get ?c ''Authorization'' = Some ''Basic YWRtaW46c2VjcmV0''"
    by (simp add: Get_def)
  have pre: "HasPrefix ''Basic YWRtaW46c2VjcmV0'' ''Basic ''" by (simp add: HasPrefix_def)
  have cut: "cutAt CHR '':'' ''admin:secret'' = Some (''admin'', ''secret'')" by simp
  have direct: "BasicAuth ?D ?vb ?id ?c =
         (NilErr, ?c\<lparr>Auth := Some \<lparr>Type = ''basic'', Value = [], Username = ''admin'',
                                    Password = ''secret'', Valid = True\<rparr>\<rparr>)"
    using auth_attaches_valid_info[of ?c ?D ?vb]
    by (simp add: BasicAuth_def g pre SplitN_two cut SetAuth_def)
  have missing: "\<exists>c' f'. BasicAuth ?D ?vb ?id (?c\<lparr>RequestCtx := Some (?f\<lparr>reqHeader := \<lambda>k. []\<rparr>)\<rparr>)
              = (NilErr, c') \<and> RequestCtx c' = Some f' \<and> statusCode (Response f') = 401
              \<and> respHeader (Response f') ''WWW-Authenticate'' = Some basicChallenge
              \<and> Auth c' = None"
    by (simp add: BasicAuth_def Get_def Set_def withResponse_def Unauthorized_def JSON_def
        StatusUnauthorized_def)
  show ?thesis
    unfolding Let_def using direct missing by (rule conjI)
qed

section \<open>Properties of the context pool\<close>

lemma acquireCtx_fresh_maps:
  "Params (fst (acquireCtx a fctx)) = Map.empty
   \<and> Locals (fst (acquireCtx a fctx)) = Map.empty
   \<and> RequestCtx (fst (acquireCtx a fctx)) = Some fctx
   \<and> Logger (fst (acquireCtx a fctx)) = Some (logger a)"
  by (simp add: acquireCtx_def pool_Get_def split: list.splits)

lemma acquireCtx_after_release:
  "Auth (fst (acquireCtx (releaseCtx a c) fctx)) = Auth c"
  by (simp add: acquireCtx_def releaseCtx_def pool_Get_def pool_Put_def)

text \<open>
  Claim C1 at a failing input. An application with a route \<open>/private\<close> behind
  \<open>BasicAuth\<close> and a route \<open>/public\<close> without authentication, whose handler answers
  with the user name of the context's auth result when there is a valid one and with
  401 otherwise. After one authenticated request to \<open>/private\<close>, a request to
  \<open>/public\<close> that carries no credentials is handed the pooled context with the first
  request's auth result still attached: \<open>acquireCtx\<close> empties the two maps but never
  resets \<open>Auth\<close>, and the handler answers 200 with the user name \<open>admin\<close>.
\<close>

theorem acquire_stale_auth:
  "(let first = request ''GET'' ''/private''
                  (\<lambda>k. if k = ''Authorization'' then ''Basic YWRtaW46c2VjcmV0'' else []);
        second = request ''GET'' ''/public'' (\<lambda>k. []);
        a1 = snd (snd (handleRequest fasthttp_StatusCode demoApp first 0))
    in Auth (fst (acquireCtx a1 second))
         = Some \<lparr>Type = ''basic'', Value = [], Username = ''admin'', Password = ''secret'',
                  Valid = True\<rparr>
       \<and> map_option (\<lambda>f. (statusCode (Response f), body (Response f)))
            (fst (snd (handleRequest fasthttp_StatusCode a1 second 0)))
         = Some (200, JSONBody [(''username'', ''admin'')])
       \<and> map_option (\<lambda>f. (statusCode (Response f), body (Response f)))
            (fst (snd (handleRequest fasthttp_StatusCode demoApp second 0)))
         = Some (401, JSONBody [(''error'', ''not authenticated'')]))"
  by code_simp

section \<open>Properties of the dispatcher\<close>

lemma storeAt_map_of:
  "map_of (storeAt m key v) k =
     (if k = key \<and> map_of m key \<noteq> None then Some v else map_of m k)"
  by (induction m) auto

lemma addOne_map_of:
  "map_of (addOne m key) k =
     (if k = key then Some ((case map_of m key of None \<Rightarrow> 0 | Some n \<Rightarrow> n) + 1)
      else map_of m k)"
  by (auto simp: addOne_def LoadOrStore_def storeAt_map_of map_add_def split: option.splits)

lemma ObserveLatency_others:
  "ObserveLatency m method path d = (r, m') \<Longrightarrow>
   errorTotal m' = errorTotal m \<and> requestTotal m' = requestTotal m \<and> logCount m' = logCount m"
  by (auto simp: ObserveLatency_def Let_def split: prod.splits LatencyEntry.splits)

lemma recordMetrics_off:
  "recordMetrics None method path status d errorType = (NilErr, None)"
  by (simp add: recordMetrics_def)

lemma recordMetrics_on:
  assumes "ObserveLatency (IncRequestTotal m method path status) method path d = (NilErr, m')"
  shows "recordMetrics (Some m) method path status d errorType =
     (NilErr, Some (if errorType \<noteq> [] then IncError m' method path errorType else m'))"
  using assms by (simp add: recordMetrics_def)

lemma recordMetrics_panic:
  assumes "ObserveLatency (IncRequestTotal m method path status) method path d = (Panic msg, m')"
  shows "recordMetrics (Some m) method path status d errorType = (Panic msg, Some m')"
  using assms by (simp add: recordMetrics_def)

lemma fasthttp_StatusCode_never_zero: "fasthttp_StatusCode r \<noteq> 0"
  by (simp add: fasthttp_StatusCode_def)


lemma acquireCtx_parts:
  "RequestCtx (fst (acquireCtx a fctx)) = Some fctx
   \<and> appRoutes (snd (acquireCtx a fctx)) = appRoutes a
   \<and> metrics (snd (acquireCtx a fctx)) = metrics a
   \<and> logger (snd (acquireCtx a fctx)) = logger a
   \<and> appMiddleware (snd (acquireCtx a fctx)) = appMiddleware a"
  by (simp add: acquireCtx_def pool_Get_def split: list.splits)

lemma respond_json:
  assumes "RequestCtx c = Some f"
  shows "Status c code = Some (c\<lparr>RequestCtx := Some (f\<lparr>Response := (Response f)\<lparr>statusCode := code\<rparr>\<rparr>)\<rparr>)"
    and "JSON c code v =
      (NilErr, c\<lparr>RequestCtx := Some (f\<lparr>Response := (Response f)
          \<lparr>contentType := ''application/json'', statusCode := code, body := JSONBody v\<rparr>\<rparr>)\<rparr>)"
  using assms by (simp_all add: Status_def JSON_def withResponse_def)

lemma handleRequest_not_found:
  assumes nf: "find (appRoutes a) (reqMethod fctx) (reqPath fctx) = None"
  shows "handleRequest R a fctx d =
     (let c = fst (acquireCtx a fctx); a1 = snd (acquireCtx a fctx);
          c' = c\<lparr>RequestCtx := Some (fctx\<lparr>Response := (Response fctx)
                 \<lparr>contentType := ''application/json'', statusCode := 404,
                  body := JSONBody [(''error'', ''not found'')]\<rparr>\<rparr>)\<rparr>
      in case recordMetrics (metrics a) (reqMethod fctx) (reqPath fctx) 404 d ''not_found'' of
           (res, ms) \<Rightarrow> (res, RequestCtx c', releaseCtx (a1\<lparr>metrics := ms\<rparr>) c'))"
proof -
  obtain c a1 where acq: "acquireCtx a fctx = (c, a1)" by (cases "acquireCtx a fctx")
  from acquireCtx_parts[of a fctx] acq have c: "RequestCtx c = Some fctx"
    and r: "appRoutes a1 = appRoutes a" and m: "metrics a1 = metrics a"
    by simp_all
  show ?thesis
    unfolding handleRequest_def acq Let_def
    by (simp add: r nf m c StatusNotFound_def Status_def JSON_def withResponse_def split: prod.splits)
qed

text \<open>
  Claim C9, as the code has it. For every request whose method and path match no
  registered route the dispatcher answers 404 with the body \<open>{"error": "not found"}\<close>,
  runs no handler and no middleware, and releases the context. When metrics are
  enabled and observing the latency goes through, it records the request under status
  404 and the error counter keyed by method, requested path and \<open>not_found\<close> goes up by
  exactly 1, every other error counter staying as it was. When metrics are disabled
  (\<open>a.metrics == nil\<close>) \<open>recordMetrics\<close> returns at once and nothing is counted.
\<close>

theorem no_route_404:
  assumes nf: "find (appRoutes a) (reqMethod fctx) (reqPath fctx) = None"
  shows
    "(let method = reqMethod fctx; path = reqPath fctx;
          c = fst (acquireCtx a fctx); a1 = snd (acquireCtx a fctx);
          answer = fctx\<lparr>Response := (Response fctx)
                 \<lparr>contentType := ''application/json'', statusCode := 404,
                  body := JSONBody [(''error'', ''not found'')]\<rparr>\<rparr>;
          c' = c\<lparr>RequestCtx := Some answer\<rparr>;
          key = method @ ''_'' @ path @ ''_not_found''
      in (metrics a = None \<longrightarrow>
            handleRequest R a fctx d = (NilErr, Some answer, releaseCtx (a1\<lparr>metrics := None\<rparr>) c'))
       \<and> (\<forall>m m'. metrics a = Some m
              \<and> ObserveLatency (IncRequestTotal m method path 404) method path d = (NilErr, m') \<longrightarrow>
            handleRequest R a fctx d =
              (NilErr, Some answer,
               releaseCtx (a1\<lparr>metrics := Some (IncError m' method path ''not_found'')\<rparr>) c')
            \<and> map_of (errorTotal (IncError m' method path ''not_found'')) key =
                Some ((case map_of (errorTotal m) key of None \<Rightarrow> 0 | Some n \<Rightarrow> n) + 1)
            \<and> (\<forall>k. k \<noteq> key \<longrightarrow>
                  map_of (errorTotal (IncError m' method path ''not_found'')) k =
                  map_of (errorTotal m) k)))"
proof -
  note run = handleRequest_not_found[OF nf, of R d, unfolded Let_def]
  have off: "handleRequest R a fctx d =
      (NilErr, Some (fctx\<lparr>Response := (Response fctx)
                 \<lparr>contentType := ''application/json'', statusCode := 404,
                  body := JSONBody [(''error'', ''not found'')]\<rparr>\<rparr>),
       releaseCtx ((snd (acquireCtx a fctx))\<lparr>metrics := None\<rparr>)
         ((fst (acquireCtx a fctx))\<lparr>RequestCtx := Some (fctx\<lparr>Response := (Response fctx)
                 \<lparr>contentType := ''application/json'', statusCode := 404,
                  body := JSONBody [(''error'', ''not found'')]\<rparr>\<rparr>)\<rparr>))"
    if "metrics a = None"
    unfolding run that by (simp add: recordMetrics_off)
  have on: "handleRequest R a fctx d =
      (NilErr, Some (fctx\<lparr>Response := (Response fctx)
                 \<lparr>contentType := ''application/json'', statusCode := 404,
                  body := JSONBody [(''error'', ''not found'')]\<rparr>\<rparr>),
       releaseCtx ((snd (acquireCtx a fctx))
            \<lparr>metrics := Some (IncError m' (reqMethod fctx) (reqPath fctx) ''not_found'')\<rparr>)
         ((fst (acquireCtx a fctx))\<lparr>RequestCtx := Some (fctx\<lparr>Response := (Response fctx)
                 \<lparr>contentType := ''application/json'', statusCode := 404,
                  body := JSONBody [(''error'', ''not found'')]\<rparr>\<rparr>)\<rparr>))
      \<and> map_of (errorTotal (IncError m' (reqMethod fctx) (reqPath fctx) ''not_found''))
            (reqMethod fctx @ ''_'' @ reqPath fctx @ ''_not_found'') =
          Some ((case map_of (errorTotal m) (reqMethod fctx @ ''_'' @ reqPath fctx @ ''_not_found'')
                 of None \<Rightarrow> 0 | Some n \<Rightarrow> n) + 1)
      \<and> (\<forall>k. k \<noteq> reqMethod fctx @ ''_'' @ reqPath fctx @ ''_not_found'' \<longrightarrow>
            map_of (errorTotal (IncError m' (reqMethod fctx) (reqPath fctx) ''not_found'')) k =
            map_of (errorTotal m) k)"
    if ms: "metrics a = Some m"
      and ol: "ObserveLatency (IncRequestTotal m (reqMethod fctx) (reqPath fctx) 404)
                 (reqMethod fctx) (reqPath fctx) d = (NilErr, m')"
    for m m'
  proof -
    from ObserveLatency_others[OF ol] have e: "errorTotal m' = errorTotal m"
      by (simp add: IncRequestTotal_def Let_def)
    have key: "reqMethod fctx @ ''_'' @ reqPath fctx @ ''_'' @ ''not_found''
        = reqMethod fctx @ ''_'' @ reqPath fctx @ ''_not_found''"
      by simp
    have rec: "recordMetrics (Some m) (reqMethod fctx) (reqPath fctx) 404 d ''not_found''
        = (NilErr, Some (IncError m' (reqMethod fctx) (reqPath fctx) ''not_found''))"
      using recordMetrics_on[OF ol, of "''not_found''"] by simp
    have et: "errorTotal (IncError m' (reqMethod fctx) (reqPath fctx) ''not_found'')
        = addOne (errorTotal m) (reqMethod fctx @ ''_'' @ reqPath fctx @ ''_not_found'')"
      unfolding IncError_def Let_def key e by simp
    show ?thesis
      unfolding run ms rec et by (simp add: addOne_map_of)
  qed
  from off on show ?thesis unfolding Let_def by blast
qed

theorem no_route_404_witness:
  "fst (handleRequest fasthttp_StatusCode failApp (request ''GET'' ''/nope'' (\<lambda>k. [])) 3000000)
     = NilErr
   \<and> map_option (\<lambda>f. (statusCode (Response f), body (Response f)))
        (fst (snd (handleRequest fasthttp_StatusCode failApp
                     (request ''GET'' ''/nope'' (\<lambda>k. [])) 3000000)))
        = Some (404, JSONBody [(''error'', ''not found'')])
   \<and> map_option errorTotal
        (metrics (snd (snd (handleRequest fasthttp_StatusCode failApp
                     (request ''GET'' ''/nope'' (\<lambda>k. [])) 3000000))))
        = Some [(''GET_/nope_not_found'', 1)]
   \<and> map_option requestTotal
        (metrics (snd (snd (handleRequest fasthttp_StatusCode failApp
                     (request ''GET'' ''/nope'' (\<lambda>k. [])) 3000000))))
        = Some [(''GET_/nope_404'', 1)]"
proof -
  let ?fctx = "request ''GET'' ''/nope'' (\<lambda>k. [])"
  let ?ol = "ObserveLatency (IncRequestTotal New_Metrics (reqMethod ?fctx) (reqPath ?fctx) 404)
                 (reqMethod ?fctx) (reqPath ?fctx) 3000000"
  have nf: "find (appRoutes failApp) (reqMethod ?fctx) (reqPath ?fctx) = None"
    by code_simp
  have ms: "metrics failApp = Some New_Metrics" by (simp add: failApp_def)
  have "fst ?ol = NilErr" by code_simp
  then have ol: "?ol = (NilErr, snd ?ol)" by (simp add: prod_eq_iff)
  note inst = no_route_404[OF nf, of fasthttp_StatusCode 3000000, unfolded Let_def,
      THEN conjunct2, rule_format, OF conjI[OF ms ol], THEN conjunct1]
  have r1: "fst (handleRequest fasthttp_StatusCode failApp ?fctx 3000000) = NilErr"
    by (simp only: inst fst_conv)
  have r2: "map_option (\<lambda>f. (statusCode (Response f), body (Response f)))
        (fst (snd (handleRequest fasthttp_StatusCode failApp ?fctx 3000000)))
        = Some (404, JSONBody [(''error'', ''not found'')])"
    by code_simp
  have r3: "map_option errorTotal
        (metrics (snd (snd (handleRequest fasthttp_StatusCode failApp ?fctx 3000000))))
        = Some [(''GET_/nope_not_found'', 1)]"
    by code_simp
  have r4: "map_option requestTotal
        (metrics (snd (snd (handleRequest fasthttp_StatusCode failApp ?fctx 3000000))))
        = Some [(''GET_/nope_404'', 1)]"
    by code_simp
  from r1 r2 r3 r4 show ?thesis by (intro conjI)
qed

text \<open>
  With metrics disabled the unmatched request is answered 404 and the application
  has no metrics afterwards: no error counter was incremented.
\<close>

theorem no_route_metrics_off_counterexample:
  "map_option (\<lambda>f. statusCode (Response f))
      (fst (snd (handleRequest fasthttp_StatusCode demoApp (request ''GET'' ''/nope'' (\<lambda>k. [])) 0)))
     = Some 404
   \<and> metrics (snd (snd (handleRequest fasthttp_StatusCode demoApp
                          (request ''GET'' ''/nope'' (\<lambda>k. [])) 0))) = None"
  by code_simp

text \<open>
  The latency map keeps a mutex under \<open>method_path\<close> and the bucket under
  \<open>method_path_bucket\<close>. After an unmatched \<open>GET /a\<close>, an unmatched \<open>GET /a_bucket\<close>
  finds the bucket of \<open>/a\<close> where it expects its own mutex: the type assertion in
  \<open>ObserveLatency\<close> panics after the request counter was incremented and before the
  error counter is.
\<close>

lemma not_found_bucket_collision:
  "(let a1 = snd (snd (handleRequest fasthttp_StatusCode failApp
                         (request ''GET'' ''/a'' (\<lambda>k. [])) 0));
        res = handleRequest fasthttp_StatusCode a1 (request ''GET'' ''/a_bucket'' (\<lambda>k. [])) 0
    in fst res =
         Panic ''interface conversion: interface {} is *metrics.LatencyBucket, not *sync.Mutex''
       \<and> map_option errorTotal (metrics (snd (snd res))) = Some [(''GET_/a_not_found'', 1)]
       \<and> map_option requestTotal (metrics (snd (snd res)))
            = Some [(''GET_/a_404'', 1), (''GET_/a_bucket_404'', 1)])"
  by code_simp

lemma handleRequest_routed:
  assumes route: "find (appRoutes a) (reqMethod fctx) (reqPath fctx) = Some (route, params)"
  shows "handleRequest R a fctx d =
     (let c = fst (acquireCtx a fctx); a1 = snd (acquireCtx a fctx);
          c1 = c\<lparr>Params := Params c ++ params\<rparr>
      in case buildChain (appMiddleware a) (Handlers route) (middleware route) c1 of
           (Panic msg, c2) \<Rightarrow> (Panic msg, RequestCtx c2, releaseCtx a1 c2)
         | (Err e, c2) \<Rightarrow>
             (let ms = map_option (logError (logger a)) (metrics a) in
              case RequestCtx c2 of
                None \<Rightarrow> (nilDeref, None, releaseCtx (a1\<lparr>metrics := ms\<rparr>) c2)
              | Some f2 \<Rightarrow>
                  if R (Response f2) = 0 then
                    (let answer = f2\<lparr>Response := (Response f2)
                           \<lparr>contentType := ''application/json'', statusCode := 500,
                            body := JSONBody [(''error'', ''internal server error'')]\<rparr>\<rparr>
                     in case recordMetrics ms (reqMethod fctx) (Path route) 500 d ''handler_error'' of
                          (res, ms') \<Rightarrow>
                            (res, Some answer,
                             releaseCtx (a1\<lparr>metrics := ms'\<rparr>) (c2\<lparr>RequestCtx := Some answer\<rparr>)))
                  else
                    (case recordMetrics ms (reqMethod fctx) (Path route) (R (Response f2)) d
                            ''handler_error'' of
                       (res, ms') \<Rightarrow> (res, Some f2, releaseCtx (a1\<lparr>metrics := ms'\<rparr>) c2)))
         | (NilErr, c2) \<Rightarrow>
             (case RequestCtx c2 of
                None \<Rightarrow> (nilDeref, None, releaseCtx a1 c2)
              | Some f2 \<Rightarrow>
                  (case recordMetrics (metrics a) (reqMethod fctx) (Path route)
                          (if R (Response f2) = 0 then 200 else R (Response f2)) d [] of
                     (res, ms') \<Rightarrow> (res, Some f2, releaseCtx (a1\<lparr>metrics := ms'\<rparr>) c2))))"
proof -
  obtain c a1 where acq: "acquireCtx a fctx = (c, a1)" by (cases "acquireCtx a fctx")
  from acquireCtx_parts[of a fctx] acq have
    r: "appRoutes a1 = appRoutes a" and m: "metrics a1 = metrics a"
    and l: "logger a1 = logger a" and mw: "appMiddleware a1 = appMiddleware a"
    by simp_all
  show ?thesis
    unfolding handleRequest_def acq Let_def
    by (simp add: r route m l mw StatusInternalServerError_def StatusOK_def Status_def JSON_def
        withResponse_def
        split: prod.splits outcome.splits option.splits)
qed





text \<open>
  On the transport this repository runs on the reader never returns 0, so the branch
  that sets status 500 is never taken: the failing handler of \<open>failApp\<close>, which sets no
  status, leaves the response without status and body (the transport sends it as 200),
  and the request is counted under status 200 together with one \<open>handler_error\<close>.
\<close>

lemma handler_error_on_fasthttp:
  "map_option (\<lambda>f. (statusCode (Response f), fasthttp_StatusCode (Response f), body (Response f)))
        (fst (snd (handleRequest fasthttp_StatusCode failApp
                     (request ''GET'' ''/fail/7'' (\<lambda>k. [])) 2000000)))
        = Some (0, 200, NoBody)
   \<and> map_option errorTotal
        (metrics (snd (snd (handleRequest fasthttp_StatusCode failApp
                     (request ''GET'' ''/fail/7'' (\<lambda>k. [])) 2000000))))
        = Some [(''GET_/fail/:id_handler_error'', 1)]
   \<and> map_option requestTotal
        (metrics (snd (snd (handleRequest fasthttp_StatusCode failApp
                     (request ''GET'' ''/fail/7'' (\<lambda>k. [])) 2000000))))
        = Some [(''GET_/fail/:id_200'', 1)]"
  by code_simp

lemma chain_failure_never_500_on_fasthttp:
  assumes "find (appRoutes a) (reqMethod fctx) (reqPath fctx) = Some (route, params)"
    and "buildChain (appMiddleware a) (Handlers route) (middleware route)
           ((fst (acquireCtx a fctx))\<lparr>Params := Params (fst (acquireCtx a fctx)) ++ params\<rparr>)
         = (Err e, c2)"
    and "RequestCtx c2 = Some f2"
  shows "fst (snd (handleRequest fasthttp_StatusCode a fctx d)) = Some f2"
  using assms fasthttp_StatusCode_never_zero[of "Response f2"]
  by (simp add: handleRequest_routed Let_def split: prod.splits)

section \<open>Properties of the renderers\<close>

text \<open>
  Claim C5 at a failing input. One request \<open>GET /user_profile\<close> answered 200 has been
  recorded. The structured snapshot reports the count 1 under the key
  \<open>GET_/user_profile_200\<close>. The text rendering recovers the labels by cutting that key
  at its first two underscores, so its line for the same counter is labelled
  \<open>path="/user"\<close> and \<open>status="profile_200"\<close>: no line carries the recorded path and
  status. The float formatting and the uptime are arbitrary here.
\<close>

theorem render_labels_cut_at_underscore:
  "ToPrometheus avg fmt2 uptime (IncRequestTotal New_Metrics ''GET'' ''/user_profile'' 200) =
     Inr (''# HELP http_requests_total Total number of HTTP requests'' @ nl
          @ ''# TYPE http_requests_total counter'' @ nl
          @ ''http_requests_total{method='' @ quoted ''GET'' @ '',path='' @ quoted ''/user''
              @ '',status='' @ quoted ''profile_200'' @ ''} 1'' @ nl
          @ nl @ ''# HELP http_request_duration_ms HTTP request latency in milliseconds'' @ nl
          @ ''# TYPE http_request_duration_ms gauge'' @ nl
          @ nl @ ''# HELP http_errors_total Total number of HTTP errors'' @ nl
          @ ''# TYPE http_errors_total counter'' @ nl
          @ nl @ ''# HELP active_connections Current active connections'' @ nl
          @ ''# TYPE active_connections gauge'' @ nl
          @ ''active_connections 0'' @ nl
          @ nl @ ''# HELP uptime_seconds Server uptime in seconds'' @ nl
          @ ''# TYPE uptime_seconds gauge'' @ nl
          @ ''uptime_seconds '' @ fmt2 uptime @ nl)
   \<and> (case ToJSON avg uptime (IncRequestTotal New_Metrics ''GET'' ''/user_profile'' 200) of
         Inl p \<Rightarrow> False
       | Inr j \<Rightarrow> Requests j ''GET_/user_profile_200'' = Some 1
                  \<and> dom (Requests j) = {''GET_/user_profile_200''})"
proof -
  have key: "showInt 200 = ''200''"
    by (simp add: showInt_def showNat.simps digitChar_def)
  have m: "IncRequestTotal New_Metrics ''GET'' ''/user_profile'' 200 =
      \<lparr>requestTotal = [(''GET_/user_profile_200'', 1)], requestLatency = [], errorTotal = [],
       logCount = [], activeConns = 0\<rparr>"
    by (simp add: IncRequestTotal_def key addOne_def LoadOrStore_def New_Metrics_def)
  have line: "requestLine ''GET_/user_profile_200'' 1 =
      ''http_requests_total{method='' @ quoted ''GET'' @ '',path='' @ quoted ''/user''
              @ '',status='' @ quoted ''profile_200'' @ ''} 1'' @ nl"
    by (simp add: requestLine_def numeral_3_eq_3 showInt_def showNat.simps digitChar_def)
  have zero: "showInt 0 = ''0''"
    by (simp add: showInt_def showNat.simps digitChar_def)
  have prom: "ToPrometheus avg fmt2 uptime
       \<lparr>requestTotal = [(''GET_/user_profile_200'', 1)], requestLatency = [], errorTotal = [],
        logCount = [], activeConns = 0\<rparr> =
     Inr (''# HELP http_requests_total Total number of HTTP requests'' @ nl
          @ ''# TYPE http_requests_total counter'' @ nl
          @ ''http_requests_total{method='' @ quoted ''GET'' @ '',path='' @ quoted ''/user''
              @ '',status='' @ quoted ''profile_200'' @ ''} 1'' @ nl
          @ nl @ ''# HELP http_request_duration_ms HTTP request latency in milliseconds'' @ nl
          @ ''# TYPE http_request_duration_ms gauge'' @ nl
          @ nl @ ''# HELP http_errors_total Total number of HTTP errors'' @ nl
          @ ''# TYPE http_errors_total counter'' @ nl
          @ nl @ ''# HELP active_connections Current active connections'' @ nl
          @ ''# TYPE active_connections gauge'' @ nl
          @ ''active_connections 0'' @ nl
          @ nl @ ''# HELP uptime_seconds Server uptime in seconds'' @ nl
          @ ''# TYPE uptime_seconds gauge'' @ nl
          @ ''uptime_seconds '' @ fmt2 uptime @ nl)"
    unfolding ToPrometheus_def Let_def
    by (simp add: line zero)
  have json: "(case ToJSON avg uptime
       \<lparr>requestTotal = [(''GET_/user_profile_200'', 1)], requestLatency = [], errorTotal = [],
        logCount = [], activeConns = 0\<rparr> of
         Inl p \<Rightarrow> False
       | Inr j \<Rightarrow> Requests j ''GET_/user_profile_200'' = Some 1
                  \<and> dom (Requests j) = {''GET_/user_profile_200''})"
    by (simp add: ToJSON_def)
  from prom json show ?thesis unfolding m by (rule conjI)
qed

text \<open>
  A request path that ends in \<open>_bucket\<close> leaves its mutex under a key with the suffix
  the renderers take for a bucket: after one such request both renderers panic.
\<close>

lemma render_bucket_suffix_panics:
  "ToPrometheus avg fmt2 uptime (snd (ObserveLatency New_Metrics ''GET'' ''/x_bucket'' d)) =
     Inl ''interface conversion: interface {} is *sync.Mutex, not *metrics.LatencyBucket''
   \<and> ToJSON avg uptime (snd (ObserveLatency New_Metrics ''GET'' ''/x_bucket'' d)) =
     Inl ''interface conversion: interface {} is *sync.Mutex, not *metrics.LatencyBucket''"
proof -
  have m: "snd (ObserveLatency New_Metrics ''GET'' ''/x_bucket'' d) =
      \<lparr>requestTotal = [], requestLatency =
        [(''GET_/x_bucket'', MutexEntry),
         (''GET_/x_bucket_bucket'', BucketEntry (Milliseconds d) 1)],
       errorTotal = [], logCount = [], activeConns = 0\<rparr>"
    by (simp add: ObserveLatency_def LoadOrStore_def New_Metrics_def)
  have s1: "HasSuffix ''GET_/x_bucket'' ''_bucket''" and s2: "HasSuffix ''GET_/x_bucket_bucket'' ''_bucket''"
    by (simp_all add: HasSuffix_def)
  have srt: "sort [''GET_/x_bucket'', ''GET_/x_bucket_bucket''] = [''GET_/x_bucket'', ''GET_/x_bucket_bucket'']"
    by code_simp
  show ?thesis
    unfolding m ToPrometheus_def ToJSON_def Let_def
    by (simp add: s1 s2 srt latencyLine_def)
qed

end
